theory Spec2Isabelle
  imports Main "HOL-Library.Multiset" "HOL-Library.Sublist"
begin

section \<open>JavaScript values, plugins and diagnostics\<close>

text \<open>
  The plugin system comes in two forms: the single class \<^verbatim>\<open>PluginSystem\<close> of
  \<^verbatim>\<open>src/index.ts\<close> (\<^verbatim>\<open>src/unnamed/part_002\<close>), and the library of
  \<^verbatim>\<open>src/unnamed/part_001\<close> with \<^verbatim>\<open>Core\<close>, \<^verbatim>\<open>ExecutionCore\<close> and the classes
  \<^verbatim>\<open>SyncPluginSystem\<close>, \<^verbatim>\<open>AsyncPluginSystem\<close> and \<^verbatim>\<open>PluginSystem\<close>. Both inspect their
  plugins with \<^verbatim>\<open>typeof\<close>, \<^verbatim>\<open>in\<close>, \<^verbatim>\<open>instanceof Promise\<close>, truthiness and comparisons
  against \<^verbatim>\<open>null\<close> and \<^verbatim>\<open>undefined\<close>. The values below are the JavaScript values those
  tests tell apart. The type parameter \<open>'a\<close> is the type of the argument list that a
  dispatch call forwards to the hook functions.

  A function value is its behaviour on an argument list: \<open>Inl e\<close> when the call throws
  \<open>e\<close>, \<open>Inr v\<close> when it returns \<open>v\<close>. A promise is the way it settles; \<open>Pending\<close> is a
  promise that never settles. \<open>JPromise\<close> is an instance of \<^verbatim>\<open>Promise\<close>; \<open>JThenable\<close> is
  any other object with a \<^verbatim>\<open>then\<close> method (inherited, as a promise's is), given by the
  way \<^verbatim>\<open>await\<close> and promise resolution settle it: \<^verbatim>\<open>instanceof Promise\<close> is false for
  it, and \<^verbatim>\<open>await\<close> unwraps it all the same. Objects are their own properties (property names inherited
  from \<^verbatim>\<open>Object.prototype\<close> are not modelled), numbers are integers.
\<close>

datatype ('e, 'v) settle = Fulfilled 'v | Rejected 'e | Pending

datatype 'a jsval =
    Undefined
  | Null
  | JBool bool
  | JNum int
  | JStr string
  | JObject "string \<Rightarrow> 'a jsval option"
  | JFun "'a \<Rightarrow> 'a jsval + 'a jsval"
  | JPromise "('a jsval, 'a jsval) settle"
  | JThenable "('a jsval, 'a jsval) settle"

datatype jstype = TUndefined | TObject | TBoolean | TNumber | TString | TFunction

fun typeof :: "'a jsval \<Rightarrow> jstype" where
  "typeof Undefined = TUndefined"
| "typeof Null = TObject"
| "typeof (JBool b) = TBoolean"
| "typeof (JNum n) = TNumber"
| "typeof (JStr s) = TString"
| "typeof (JObject m) = TObject"
| "typeof (JFun f) = TFunction"
| "typeof (JPromise p) = TObject"
| "typeof (JThenable t) = TObject"

fun truthy :: "'a jsval \<Rightarrow> bool" where
  "truthy Undefined = False"
| "truthy Null = False"
| "truthy (JBool b) = b"
| "truthy (JNum n) = (n \<noteq> 0)"
| "truthy (JStr s) = (s \<noteq> [])"
| "truthy (JObject m) = True"
| "truthy (JFun f) = True"
| "truthy (JPromise p) = True"
| "truthy (JThenable t) = True"

fun is_null :: "'a jsval \<Rightarrow> bool" where
  "is_null Null = True"
| "is_null v = False"

fun is_undefined :: "'a jsval \<Rightarrow> bool" where
  "is_undefined Undefined = True"
| "is_undefined v = False"

fun instanceof_Promise :: "'a jsval \<Rightarrow> bool" where
  "instanceof_Promise (JPromise p) = True"
| "instanceof_Promise v = False"

definition TypeError :: "'a jsval" where
  "TypeError = JStr ''TypeError''"

text \<open>\<^verbatim>\<open>key in v\<close>: a \<^verbatim>\<open>TypeError\<close> when \<open>v\<close> is not an object.\<close>

fun js_in :: "string \<Rightarrow> 'a jsval \<Rightarrow> 'a jsval + bool" where
  "js_in k (JObject m) = Inr (m k \<noteq> None)"
| "js_in k (JFun f) = Inr False"
| "js_in k (JPromise p) = Inr False"
| "js_in k (JThenable t) = Inr False"
| "js_in k v = Inl TypeError"

text \<open>
  \<^verbatim>\<open>v?.[key]\<close>: \<^verbatim>\<open>undefined\<close> on \<^verbatim>\<open>null\<close> and \<^verbatim>\<open>undefined\<close>, the property otherwise. Only
  objects have properties here; for a plugin that \<^verbatim>\<open>getPluginsWithHook\<close> lists, the
  dispatchers evaluate this only when \<^verbatim>\<open>hooks\<close> is an object.
\<close>

fun optional_member :: "'a jsval \<Rightarrow> string \<Rightarrow> 'a jsval" where
  "optional_member (JObject m) k = (case m k of None \<Rightarrow> Undefined | Some v \<Rightarrow> v)"
| "optional_member v k = Undefined"

text \<open>\<^verbatim>\<open>f(...args)\<close>: calling a value that is not a function is a \<^verbatim>\<open>TypeError\<close>.\<close>

fun call :: "'a jsval \<Rightarrow> 'a \<Rightarrow> 'a jsval + 'a jsval" where
  "call (JFun f) args = f args"
| "call v args = Inl TypeError"

text \<open>
  \<^verbatim>\<open>await v\<close>, and the resolution of a promise with \<open>v\<close>: the settlement of a promise or
  of a thenable, the value itself otherwise.
\<close>

fun await :: "'a jsval \<Rightarrow> ('a jsval, 'a jsval) settle" where
  "await (JPromise p) = p"
| "await (JThenable t) = t"
| "await v = Fulfilled v"

text \<open>
  \<^verbatim>\<open>PluginBase\<close> of \<^verbatim>\<open>src/types.ts\<close>: \<open>name\<close>, the optional \<open>priority\<close>, the optional
  \<open>hooks\<close> container (\<open>Undefined\<close> when absent; any value at run time), and in \<open>attrs\<close>
  every other direct attribute of the plugin object (\<^verbatim>\<open>PluginHooks\<close>).
\<close>

record 'a plugin =
  name :: string
  priority :: "int option"
  hooks :: "'a jsval"
  attrs :: "string \<Rightarrow> 'a jsval option"

text \<open>
  \<^verbatim>\<open>plugin[key]\<close> and \<^verbatim>\<open>key in plugin\<close>. An optional field that is absent reads as
  \<^verbatim>\<open>undefined\<close>.
\<close>

definition plugin_get :: "'a plugin \<Rightarrow> string \<Rightarrow> 'a jsval" where
  "plugin_get p k =
     (if k = ''name'' then JStr (name p)
      else if k = ''priority'' then (case priority p of None \<Rightarrow> Undefined | Some n \<Rightarrow> JNum n)
      else if k = ''hooks'' then hooks p
      else (case attrs p k of None \<Rightarrow> Undefined | Some v \<Rightarrow> v))"

definition plugin_has :: "'a plugin \<Rightarrow> string \<Rightarrow> bool" where
  "plugin_has p k =
     (if k = ''name'' then True
      else if k = ''priority'' then priority p \<noteq> None
      else if k = ''hooks'' then \<not> is_undefined (hooks p)
      else attrs p k \<noteq> None)"

text \<open>\<^verbatim>\<open>PluginFunction\<close> and \<^verbatim>\<open>PluginInput\<close> of \<^verbatim>\<open>src/types.ts\<close>.\<close>

datatype 'a produced = One "'a plugin" | Several "'a plugin list"

datatype 'a plugin_input =
    Direct "'a plugin"
  | Factory "unit \<Rightarrow> 'a jsval + 'a produced"
  | Array "'a plugin list"

text \<open>
  What the outside observes besides results: a hook function being called (its side
  effect), \<^verbatim>\<open>console.warn\<close> for a duplicate name and for a promise returned under a
  synchronous strategy, \<^verbatim>\<open>console.error\<close> for a failed hook. The events carry the plugin
  name, the hook name and the error that the messages are built from.
\<close>

datatype 'a event =
    Called string string
  | Warn_duplicate string
  | Warn_promise string string
  | Error_failed string string "'a jsval"

section \<open>The registry\<close>

text \<open>
  The fields of \<^verbatim>\<open>PluginSystem\<close> (and of \<^verbatim>\<open>Core\<close> in the library, whose registry methods
  are the same code). The arrays that
  \<^verbatim>\<open>getPluginsWithHook\<close> creates and hands out are objects with an identity: they live in
  \<open>arrays\<close>, a store indexed by reference, each with its frozen flag, and \<open>hookCache\<close>
  maps a hook name to the reference it holds.
\<close>

record 'a registry =
  plugins :: "'a plugin list"
  hookCache :: "string \<Rightarrow> nat option"
  sortedPlugins :: "'a plugin list"
  isDirty :: bool
  arrays :: "('a plugin list \<times> bool) list"

definition fields0 :: "'a registry" where
  "fields0 = \<lparr>plugins = [], hookCache = Map.empty, sortedPlugins = [], isDirty = False,
     arrays = []\<rparr>"

definition alloc :: "'a plugin list \<Rightarrow> bool \<Rightarrow> 'a registry \<Rightarrow> nat \<times> 'a registry" where
  "alloc xs frozen s = (length (arrays s), s\<lparr>arrays := arrays s @ [(xs, frozen)]\<rparr>)"

definition deref :: "'a registry \<Rightarrow> nat \<Rightarrow> 'a plugin list" where
  "deref s r = (if r < length (arrays s) then fst (arrays s ! r) else [])"

fun flattenPlugins_loop ::
  "'a plugin list \<Rightarrow> 'a plugin_input list \<Rightarrow> 'a jsval + 'a plugin list" where
  "flattenPlugins_loop flattened [] = Inr flattened"
| "flattenPlugins_loop flattened (Factory input # rest) =
     (case input () of
        Inl e \<Rightarrow> Inl e
      | Inr (Several result) \<Rightarrow> flattenPlugins_loop (flattened @ result) rest
      | Inr (One result) \<Rightarrow> flattenPlugins_loop (flattened @ [result]) rest)"
| "flattenPlugins_loop flattened (Array input # rest) =
     flattenPlugins_loop (flattened @ input) rest"
| "flattenPlugins_loop flattened (Direct input # rest) =
     flattenPlugins_loop (flattened @ [input]) rest"

definition flattenPlugins :: "'a plugin_input list \<Rightarrow> 'a jsval + 'a plugin list" where
  "flattenPlugins pluginInputs = flattenPlugins_loop [] pluginInputs"

definition invalidateCache :: "'a registry \<Rightarrow> 'a registry" where
  "invalidateCache s = s\<lparr>isDirty := True, hookCache := Map.empty\<rparr>"

text \<open>
  The loop of \<^verbatim>\<open>use\<close> over the flattened plugins, with \<^verbatim>\<open>this.plugins\<close>, the set
  \<^verbatim>\<open>existingNames\<close> and the warnings printed so far.
\<close>

fun use_loop ::
  "'a plugin list \<Rightarrow> string set \<Rightarrow> 'a event list \<Rightarrow> 'a plugin list
     \<Rightarrow> 'a plugin list \<times> 'a event list" where
  "use_loop ps existingNames log [] = (ps, log)"
| "use_loop ps existingNames log (plugin # rest) =
     (if name plugin \<in> existingNames
      then use_loop ps existingNames (log @ [Warn_duplicate (name plugin)]) rest
      else use_loop (ps @ [plugin]) (insert (name plugin) existingNames) log rest)"

text \<open>
  Every operation returns how it completed (\<open>Inl e\<close>: it threw \<open>e\<close> to its caller), the
  events it produced and the registry afterwards. \<^verbatim>\<open>use\<close>, \<^verbatim>\<open>remove\<close> and \<^verbatim>\<open>clear\<close>
  return \<^verbatim>\<open>this\<close>, which is the registry in the third component.
\<close>

definition use ::
  "'a registry \<Rightarrow> 'a plugin_input list \<Rightarrow> ('a jsval + unit) \<times> 'a event list \<times> 'a registry" where
  "use s pluginInputs =
     (case flattenPlugins pluginInputs of
        Inl e \<Rightarrow> (Inl e, [], s)
      | Inr newPlugins \<Rightarrow>
          (case use_loop (plugins s) (set (map name (plugins s))) [] newPlugins of
             (ps, log) \<Rightarrow> (Inr (), log, invalidateCache (s\<lparr>plugins := ps\<rparr>))))"

definition remove ::
  "'a registry \<Rightarrow> string \<Rightarrow> ('a jsval + unit) \<times> 'a event list \<times> 'a registry" where
  "remove s pluginName =
     (let originalLength = length (plugins s);
          s1 = s\<lparr>plugins := filter (\<lambda>p. name p \<noteq> pluginName) (plugins s)\<rparr>
      in if length (plugins s1) \<noteq> originalLength
         then (Inr (), [], invalidateCache s1)
         else (Inr (), [], s1))"

definition clear :: "'a registry \<Rightarrow> ('a jsval + unit) \<times> 'a event list \<times> 'a registry" where
  "clear s =
     (Inr (), [], s\<lparr>plugins := [], sortedPlugins := [], isDirty := False,
        hookCache := Map.empty\<rparr>)"

definition getPlugins :: "'a registry \<Rightarrow> 'a plugin list" where
  "getPlugins s = plugins s"

subsection \<open>The sorted view\<close>

text \<open>
  \<^verbatim>\<open>(a, b) => (b.priority || 0) - (a.priority || 0)\<close>, and \<^verbatim>\<open>Array.prototype.sort\<close>
  with a comparator: the language fixes it to be stable, here as a stable insertion sort.
\<close>

definition priority_or_0 :: "'a plugin \<Rightarrow> int" where
  "priority_or_0 p = (case priority p of None \<Rightarrow> 0 | Some n \<Rightarrow> if n \<noteq> 0 then n else 0)"

definition compare_priority :: "'a plugin \<Rightarrow> 'a plugin \<Rightarrow> int" where
  "compare_priority a b = priority_or_0 b - priority_or_0 a"

fun insert_by :: "('x \<Rightarrow> 'x \<Rightarrow> int) \<Rightarrow> 'x \<Rightarrow> 'x list \<Rightarrow> 'x list" where
  "insert_by cmp x [] = [x]"
| "insert_by cmp x (y # ys) = (if cmp x y \<le> 0 then x # y # ys else y # insert_by cmp x ys)"

fun js_sort :: "('x \<Rightarrow> 'x \<Rightarrow> int) \<Rightarrow> 'x list \<Rightarrow> 'x list" where
  "js_sort cmp [] = []"
| "js_sort cmp (x # xs) = insert_by cmp x (js_sort cmp xs)"

definition ensureSorted :: "'a registry \<Rightarrow> 'a registry" where
  "ensureSorted s =
     (if isDirty s
      then s\<lparr>sortedPlugins :=
               (if length (plugins s) = 0 then [] else js_sort compare_priority (plugins s)),
             isDirty := False\<rparr>
      else s)"

subsection \<open>The hook resolver\<close>

text \<open>
  The predicate of the \<^verbatim>\<open>filter\<close> in \<^verbatim>\<open>getPluginsWithHook\<close>, with the short-circuit
  evaluation of \<^verbatim>\<open>&&\<close> and \<^verbatim>\<open>||\<close>: \<^verbatim>\<open>in\<close> is the one operator in it that can throw.
\<close>

definition has_hook :: "string \<Rightarrow> 'a plugin \<Rightarrow> 'a jsval + bool" where
  "has_hook hookName plugin =
     (case (if truthy (hooks plugin) \<and> typeof (hooks plugin) = TObject
               \<and> \<not> is_null (hooks plugin)
            then js_in hookName (hooks plugin) else Inr False) of
        Inl e \<Rightarrow> Inl e
      | Inr True \<Rightarrow> Inr True
      | Inr False \<Rightarrow>
          Inr (plugin_has plugin hookName \<and> typeof (plugin_get plugin hookName) = TFunction))"

fun filter_throwing :: "('x \<Rightarrow> 'e + bool) \<Rightarrow> 'x list \<Rightarrow> 'e + 'x list" where
  "filter_throwing P [] = Inr []"
| "filter_throwing P (x # xs) =
     (case P x of
        Inl e \<Rightarrow> Inl e
      | Inr b \<Rightarrow>
          (case filter_throwing P xs of
             Inl e \<Rightarrow> Inl e
           | Inr ys \<Rightarrow> Inr (if b then x # ys else ys)))"

definition getPluginsWithHook ::
  "'a registry \<Rightarrow> string \<Rightarrow> ('a jsval + nat) \<times> 'a registry" where
  "getPluginsWithHook s hookName =
     (case hookCache s hookName of
        Some r \<Rightarrow> (Inr r, s)
      | None \<Rightarrow>
          (let s1 = ensureSorted s in
           case filter_throwing (has_hook hookName) (sortedPlugins s1) of
             Inl e \<Rightarrow> (Inl e, s1)
           | Inr pluginsWithHook \<Rightarrow>
               (case alloc pluginsWithHook False s1 of
                  (r, s2) \<Rightarrow>
                    (let s3 = s2\<lparr>hookCache := (hookCache s2)(hookName \<mapsto> r)\<rparr>
                     in if length pluginsWithHook > 0 then (Inr r, s3)
                        else (case alloc [] True s3 of (r', s4) \<Rightarrow> (Inr r', s4))))))"

definition getHookFunction :: "'a plugin \<Rightarrow> string \<Rightarrow> 'a jsval" where
  "getHookFunction plugin hookName =
     (if truthy (plugin_get plugin hookName) then plugin_get plugin hookName
      else optional_member (hooks plugin) hookName)"

section \<open>Dispatch: \<^verbatim>\<open>PluginSystem\<close> of \<^verbatim>\<open>src/index.ts\<close>\<close>

text \<open>
  A hook function is modelled by what it does with the arguments (throw, return a value,
  return a promise that settles in some way); it does not change the registry, so the
  dispatch loops below only read the candidates that \<^verbatim>\<open>getPluginsWithHook\<close> returned.
  \<^verbatim>\<open>try { ... } catch (error) { ... }\<close> is the case distinction on the outcome of the call:
  the \<open>Inl\<close> branch is the \<^verbatim>\<open>catch\<close> block.
\<close>

definition with_log :: "'l list \<Rightarrow> 'c \<times> 'l list \<Rightarrow> 'c \<times> 'l list" where
  "with_log log r = (fst r, log @ snd r)"

fun exec_loop ::
  "string \<Rightarrow> 'a \<Rightarrow> 'a plugin list \<Rightarrow> ('a jsval + 'a jsval) \<times> 'a event list" where
  "exec_loop hookName args [] = (Inr Null, [])"
| "exec_loop hookName args (plugin # rest) =
     (let hookFunction = getHookFunction plugin hookName in
      if typeof hookFunction = TFunction then
        (case call hookFunction args of
           Inr result \<Rightarrow>
             if instanceof_Promise result
             then with_log [Called (name plugin) hookName, Warn_promise (name plugin) hookName]
                    (exec_loop hookName args rest)
             else if \<not> is_null result \<and> \<not> is_undefined result
             then (Inr result, [Called (name plugin) hookName])
             else with_log [Called (name plugin) hookName] (exec_loop hookName args rest)
         | Inl error \<Rightarrow>
             with_log [Called (name plugin) hookName, Error_failed (name plugin) hookName error]
               (exec_loop hookName args rest))
      else exec_loop hookName args rest)"

definition exec ::
  "'a registry \<Rightarrow> string \<Rightarrow> 'a
     \<Rightarrow> ('a jsval + 'a jsval) \<times> 'a event list \<times> 'a registry" where
  "exec s hookName args =
     (case getPluginsWithHook s hookName of
        (Inl e, s1) \<Rightarrow> (Inl e, [], s1)
      | (Inr r, s1) \<Rightarrow>
          (case exec_loop hookName args (deref s1 r) of (c, log) \<Rightarrow> (c, log, s1)))"

fun execAsync_loop ::
  "string \<Rightarrow> 'a \<Rightarrow> 'a plugin list \<Rightarrow> ('a jsval, 'a jsval) settle \<times> 'a event list" where
  "execAsync_loop hookName args [] = (Fulfilled Null, [])"
| "execAsync_loop hookName args (plugin # rest) =
     (let hookFunction = getHookFunction plugin hookName in
      if typeof hookFunction = TFunction then
        (case call hookFunction args of
           Inr v \<Rightarrow>
             (case await v of
                Fulfilled result \<Rightarrow>
                  if \<not> is_null result \<and> \<not> is_undefined result
                  then (Fulfilled result, [Called (name plugin) hookName])
                  else with_log [Called (name plugin) hookName]
                         (execAsync_loop hookName args rest)
              | Rejected error \<Rightarrow>
                  with_log
                    [Called (name plugin) hookName, Error_failed (name plugin) hookName error]
                    (execAsync_loop hookName args rest)
              | Pending \<Rightarrow> (Pending, [Called (name plugin) hookName]))
         | Inl error \<Rightarrow>
             with_log [Called (name plugin) hookName, Error_failed (name plugin) hookName error]
               (execAsync_loop hookName args rest))
      else execAsync_loop hookName args rest)"

text \<open>
  An \<^verbatim>\<open>async\<close> method returns a promise: \<open>Fulfilled\<close> with its result, \<open>Rejected\<close> with
  what it threw, \<open>Pending\<close> when an \<^verbatim>\<open>await\<close> in it never resumes.
\<close>

definition execAsync ::
  "'a registry \<Rightarrow> string \<Rightarrow> 'a
     \<Rightarrow> ('a jsval, 'a jsval) settle \<times> 'a event list \<times> 'a registry" where
  "execAsync s hookName args =
     (case getPluginsWithHook s hookName of
        (Inl e, s1) \<Rightarrow> (Rejected e, [], s1)
      | (Inr r, s1) \<Rightarrow>
          (case execAsync_loop hookName args (deref s1 r) of (c, log) \<Rightarrow> (c, log, s1)))"

fun execAll_loop ::
  "string \<Rightarrow> 'a \<Rightarrow> 'a jsval list \<Rightarrow> 'a plugin list
     \<Rightarrow> ('a jsval + 'a jsval list) \<times> 'a event list" where
  "execAll_loop hookName args results [] = (Inr results, [])"
| "execAll_loop hookName args results (plugin # rest) =
     (let hookFunction = getHookFunction plugin hookName in
      if typeof hookFunction = TFunction then
        (case call hookFunction args of
           Inr result \<Rightarrow>
             if instanceof_Promise result
             then with_log [Called (name plugin) hookName, Warn_promise (name plugin) hookName]
                    (execAll_loop hookName args results rest)
             else if \<not> is_null result \<and> \<not> is_undefined result
             then with_log [Called (name plugin) hookName]
                    (execAll_loop hookName args (results @ [result]) rest)
             else with_log [Called (name plugin) hookName]
                    (execAll_loop hookName args results rest)
         | Inl error \<Rightarrow>
             with_log [Called (name plugin) hookName, Error_failed (name plugin) hookName error]
               (execAll_loop hookName args results rest))
      else execAll_loop hookName args results rest)"

definition execAll ::
  "'a registry \<Rightarrow> string \<Rightarrow> 'a
     \<Rightarrow> ('a jsval + 'a jsval list) \<times> 'a event list \<times> 'a registry" where
  "execAll s hookName args =
     (case getPluginsWithHook s hookName of
        (Inl e, s1) \<Rightarrow> (Inl e, [], s1)
      | (Inr r, s1) \<Rightarrow>
          (let pluginsWithHook = deref s1 r in
           if length pluginsWithHook = 0 then (Inr [], [], s1)
           else (case execAll_loop hookName args [] pluginsWithHook of
                   (c, log) \<Rightarrow> (c, log, s1))))"

text \<open>
  \<^verbatim>\<open>execAllAsync\<close> builds one promise per candidate,
  \<^verbatim>\<open>Promise.resolve().then(() => hookFunction(...args)).catch(...)\<close>, or
  \<^verbatim>\<open>Promise.resolve(null)\<close> for a candidate without a function. \<open>hookPromise\<close> is that
  promise: how it settles, the call it makes when its \<^verbatim>\<open>then\<close> callback runs, and what its
  \<^verbatim>\<open>catch\<close> handler prints when it runs.
\<close>

definition hookPromise ::
  "string \<Rightarrow> 'a \<Rightarrow> 'a plugin
     \<Rightarrow> ('a jsval, 'a jsval) settle \<times> 'a event list \<times> 'a event list" where
  "hookPromise hookName args plugin =
     (let hookFunction = getHookFunction plugin hookName in
      if typeof hookFunction = TFunction then
        (case call hookFunction args of
           Inr v \<Rightarrow>
             (case await v of
                Fulfilled x \<Rightarrow> (Fulfilled x, [Called (name plugin) hookName], [])
              | Rejected error \<Rightarrow>
                  (Fulfilled Null, [Called (name plugin) hookName],
                   [Error_failed (name plugin) hookName error])
              | Pending \<Rightarrow> (Pending, [Called (name plugin) hookName], []))
         | Inl error \<Rightarrow>
             (Fulfilled Null, [Called (name plugin) hookName],
              [Error_failed (name plugin) hookName error]))
      else (Fulfilled Null, [], []))"

text \<open>
  \<^verbatim>\<open>Promise.all\<close> keeps an array of values, one slot per input promise, and fills slot
  \<open>i\<close> when promise \<open>i\<close> fulfils; it fulfils with the array once every slot is filled and
  rejects with the first rejection. The promises settle in an order that the event loop
  decides: \<open>order\<close> lists their indices in that order.
\<close>

fun promise_all_loop ::
  "('e, 'v) settle list \<Rightarrow> 'v option list \<Rightarrow> nat list \<Rightarrow> ('e, 'v list) settle" where
  "promise_all_loop ps vals [] =
     (case those vals of Some vs \<Rightarrow> Fulfilled vs | None \<Rightarrow> Pending)"
| "promise_all_loop ps vals (i # order) =
     (if i < length ps then
        (case ps ! i of
           Fulfilled v \<Rightarrow> promise_all_loop ps (vals[i := Some v]) order
         | Rejected e \<Rightarrow> Rejected e
         | Pending \<Rightarrow> promise_all_loop ps vals order)
      else promise_all_loop ps vals order)"

definition promise_all :: "('e, 'v) settle list \<Rightarrow> nat list \<Rightarrow> ('e, 'v list) settle" where
  "promise_all ps order = promise_all_loop ps (replicate (length ps) None) order"

definition settle_events ::
  "(('e, 'v) settle \<times> 'l list \<times> 'l list) list \<Rightarrow> nat list \<Rightarrow> 'l list" where
  "settle_events promises order =
     concat (map (\<lambda>i. if i < length promises then snd (snd (promises ! i)) else []) order)"

definition execAllAsync ::
  "'a registry \<Rightarrow> string \<Rightarrow> 'a \<Rightarrow> nat list
     \<Rightarrow> ('a jsval, 'a jsval list) settle \<times> 'a event list \<times> 'a registry" where
  "execAllAsync s hookName args order =
     (case getPluginsWithHook s hookName of
        (Inl e, s1) \<Rightarrow> (Rejected e, [], s1)
      | (Inr r, s1) \<Rightarrow>
          (let pluginsWithHook = deref s1 r in
           if length pluginsWithHook = 0 then (Fulfilled [], [], s1)
           else
             (let promises =
                    filter (\<lambda>q. truthy (JPromise (fst q) :: 'a jsval))
                      (map (hookPromise hookName args) pluginsWithHook);
                  log = concat (map (\<lambda>q. fst (snd q)) promises) @ settle_events promises order
              in case promise_all (map fst promises) order of
                   Fulfilled results \<Rightarrow>
                     (Fulfilled (filter (\<lambda>result. \<not> is_null result \<and> \<not> is_undefined result)
                        results), log, s1)
                 | Rejected e \<Rightarrow> (Rejected e, log, s1)
                 | Pending \<Rightarrow> (Pending, log, s1))))"

section \<open>Dispatch: the classes of the library\<close>

text \<open>
  \<^verbatim>\<open>PluginSystem\<close> of the split library has \<^verbatim>\<open>executeHookSync\<close> and \<^verbatim>\<open>executeHookAsync\<close>
  and the four strategies over them. \<^verbatim>\<open>SyncPluginSystem\<close> (\<^verbatim>\<open>executeHook\<close>, \<^verbatim>\<open>exec\<close>,
  \<^verbatim>\<open>execAll\<close>) is the same code as \<open>lib_executeHookSync\<close>, \<open>lib_exec\<close>, \<open>lib_execAll\<close>, and
  \<^verbatim>\<open>AsyncPluginSystem\<close> (\<^verbatim>\<open>executeHook\<close>, \<^verbatim>\<open>exec\<close>, \<^verbatim>\<open>execAll\<close>) the same code as
  \<open>lib_executeHookAsync\<close>, \<open>lib_execAsync\<close>, \<open>lib_execAllAsync\<close>; only the advice at the end
  of the promise warning differs. All three classes extend \<^verbatim>\<open>ExecutionCore\<close>, whose
  registry operations are those of the section above.
\<close>

definition lib_executeHookSync ::
  "'a plugin \<Rightarrow> string \<Rightarrow> 'a \<Rightarrow> ('a jsval + 'a jsval) \<times> 'a event list" where
  "lib_executeHookSync plugin hookName args =
     (let hookFunction = getHookFunction plugin hookName in
      if typeof hookFunction \<noteq> TFunction then (Inr Null, [])
      else
        (case call hookFunction args of
           Inr result \<Rightarrow>
             if instanceof_Promise result
             then (Inr Null, [Called (name plugin) hookName, Warn_promise (name plugin) hookName])
             else (Inr (if \<not> is_null result \<and> \<not> is_undefined result then result else Null),
                   [Called (name plugin) hookName])
         | Inl error \<Rightarrow>
             (Inr Null,
              [Called (name plugin) hookName, Error_failed (name plugin) hookName error])))"

definition lib_executeHookAsync ::
  "'a plugin \<Rightarrow> string \<Rightarrow> 'a \<Rightarrow> ('a jsval, 'a jsval) settle \<times> 'a event list" where
  "lib_executeHookAsync plugin hookName args =
     (let hookFunction = getHookFunction plugin hookName in
      if typeof hookFunction \<noteq> TFunction then (Fulfilled Null, [])
      else
        (case call hookFunction args of
           Inr v \<Rightarrow>
             (case await v of
                Fulfilled result \<Rightarrow>
                  (Fulfilled (if \<not> is_null result \<and> \<not> is_undefined result then result else Null),
                   [Called (name plugin) hookName])
              | Rejected error \<Rightarrow>
                  (Fulfilled Null,
                   [Called (name plugin) hookName, Error_failed (name plugin) hookName error])
              | Pending \<Rightarrow> (Pending, [Called (name plugin) hookName]))
         | Inl error \<Rightarrow>
             (Fulfilled Null,
              [Called (name plugin) hookName, Error_failed (name plugin) hookName error])))"

fun lib_exec_loop ::
  "string \<Rightarrow> 'a \<Rightarrow> 'a plugin list \<Rightarrow> ('a jsval + 'a jsval) \<times> 'a event list" where
  "lib_exec_loop hookName args [] = (Inr Null, [])"
| "lib_exec_loop hookName args (plugin # rest) =
     (case lib_executeHookSync plugin hookName args of
        (Inl e, log) \<Rightarrow> (Inl e, log)
      | (Inr result, log) \<Rightarrow>
          if \<not> is_null result then (Inr result, log)
          else with_log log (lib_exec_loop hookName args rest))"

definition lib_exec ::
  "'a registry \<Rightarrow> string \<Rightarrow> 'a
     \<Rightarrow> ('a jsval + 'a jsval) \<times> 'a event list \<times> 'a registry" where
  "lib_exec s hookName args =
     (case getPluginsWithHook s hookName of
        (Inl e, s1) \<Rightarrow> (Inl e, [], s1)
      | (Inr r, s1) \<Rightarrow>
          (case lib_exec_loop hookName args (deref s1 r) of (c, log) \<Rightarrow> (c, log, s1)))"

fun lib_execAll_loop ::
  "string \<Rightarrow> 'a \<Rightarrow> 'a jsval list \<Rightarrow> 'a plugin list
     \<Rightarrow> ('a jsval + 'a jsval list) \<times> 'a event list" where
  "lib_execAll_loop hookName args results [] = (Inr results, [])"
| "lib_execAll_loop hookName args results (plugin # rest) =
     (case lib_executeHookSync plugin hookName args of
        (Inl e, log) \<Rightarrow> (Inl e, log)
      | (Inr result, log) \<Rightarrow>
          if \<not> is_null result
          then with_log log (lib_execAll_loop hookName args (results @ [result]) rest)
          else with_log log (lib_execAll_loop hookName args results rest))"

definition lib_execAll ::
  "'a registry \<Rightarrow> string \<Rightarrow> 'a
     \<Rightarrow> ('a jsval + 'a jsval list) \<times> 'a event list \<times> 'a registry" where
  "lib_execAll s hookName args =
     (case getPluginsWithHook s hookName of
        (Inl e, s1) \<Rightarrow> (Inl e, [], s1)
      | (Inr r, s1) \<Rightarrow>
          (case lib_execAll_loop hookName args [] (deref s1 r) of (c, log) \<Rightarrow> (c, log, s1)))"

fun lib_execAsync_loop ::
  "string \<Rightarrow> 'a \<Rightarrow> 'a plugin list \<Rightarrow> ('a jsval, 'a jsval) settle \<times> 'a event list" where
  "lib_execAsync_loop hookName args [] = (Fulfilled Null, [])"
| "lib_execAsync_loop hookName args (plugin # rest) =
     (case lib_executeHookAsync plugin hookName args of
        (Fulfilled result, log) \<Rightarrow>
          if \<not> is_null result then (Fulfilled result, log)
          else with_log log (lib_execAsync_loop hookName args rest)
      | (Rejected e, log) \<Rightarrow> (Rejected e, log)
      | (Pending, log) \<Rightarrow> (Pending, log))"

definition lib_execAsync ::
  "'a registry \<Rightarrow> string \<Rightarrow> 'a
     \<Rightarrow> ('a jsval, 'a jsval) settle \<times> 'a event list \<times> 'a registry" where
  "lib_execAsync s hookName args =
     (case getPluginsWithHook s hookName of
        (Inl e, s1) \<Rightarrow> (Rejected e, [], s1)
      | (Inr r, s1) \<Rightarrow>
          (case lib_execAsync_loop hookName args (deref s1 r) of (c, log) \<Rightarrow> (c, log, s1)))"

fun lib_execAllAsync_loop ::
  "string \<Rightarrow> 'a \<Rightarrow> 'a jsval list \<Rightarrow> 'a plugin list
     \<Rightarrow> ('a jsval, 'a jsval list) settle \<times> 'a event list" where
  "lib_execAllAsync_loop hookName args results [] = (Fulfilled results, [])"
| "lib_execAllAsync_loop hookName args results (plugin # rest) =
     (case lib_executeHookAsync plugin hookName args of
        (Fulfilled result, log) \<Rightarrow>
          if \<not> is_null result
          then with_log log (lib_execAllAsync_loop hookName args (results @ [result]) rest)
          else with_log log (lib_execAllAsync_loop hookName args results rest)
      | (Rejected e, log) \<Rightarrow> (Rejected e, log)
      | (Pending, log) \<Rightarrow> (Pending, log))"

definition lib_execAllAsync ::
  "'a registry \<Rightarrow> string \<Rightarrow> 'a
     \<Rightarrow> ('a jsval, 'a jsval list) settle \<times> 'a event list \<times> 'a registry" where
  "lib_execAllAsync s hookName args =
     (case getPluginsWithHook s hookName of
        (Inl e, s1) \<Rightarrow> (Rejected e, [], s1)
      | (Inr r, s1) \<Rightarrow>
          (case lib_execAllAsync_loop hookName args [] (deref s1 r) of
             (c, log) \<Rightarrow> (c, log, s1)))"

section \<open>Sequences of operations\<close>

text \<open>
  A registry is used through its constructor, which is \<^verbatim>\<open>use\<close> on the initial fields,
  and then through any sequence of \<^verbatim>\<open>use\<close>, \<^verbatim>\<open>remove\<close>, \<^verbatim>\<open>clear\<close> and queries. Every
  dispatch strategy touches the registry only through \<^verbatim>\<open>getPluginsWithHook\<close>, so \<open>Resolve\<close>
  stands for all of them.
\<close>

datatype 'a operation = Use "'a plugin_input list" | Remove string | Clear | Resolve string

fun apply_operation :: "'a registry \<Rightarrow> 'a operation \<Rightarrow> 'a registry" where
  "apply_operation s (Use pluginInputs) = snd (snd (use s pluginInputs))"
| "apply_operation s (Remove pluginName) = snd (snd (remove s pluginName))"
| "apply_operation s Clear = snd (snd (clear s))"
| "apply_operation s (Resolve hookName) = snd (getPluginsWithHook s hookName)"

definition run :: "'a operation list \<Rightarrow> 'a registry" where
  "run ops = foldl apply_operation fields0 ops"

section \<open>Notions used in the statements\<close>

text \<open>
  What the \<^verbatim>\<open>filter\<close> of \<^verbatim>\<open>getPluginsWithHook\<close> lets through, read off its predicate:
  the \<open>hooks\<close> container is an object with a property \<open>hookName\<close> (whatever its value),
  or the plugin has a direct attribute \<open>hookName\<close> that is a function.
\<close>

definition nested_entry :: "string \<Rightarrow> 'a plugin \<Rightarrow> bool" where
  "nested_entry hookName p = (case hooks p of JObject m \<Rightarrow> m hookName \<noteq> None | _ \<Rightarrow> False)"

definition direct_function :: "string \<Rightarrow> 'a plugin \<Rightarrow> bool" where
  "direct_function hookName p = (typeof (plugin_get p hookName) = TFunction)"

definition listed :: "string \<Rightarrow> 'a plugin \<Rightarrow> bool" where
  "listed hookName p = (nested_entry hookName p \<or> direct_function hookName p)"

text \<open>
  The precedence rule in the specification's words: a callable direct attribute named
  \<open>hookName\<close>, else a callable entry under \<open>hookName\<close> inside the \<open>hooks\<close> container.
\<close>

definition implements :: "string \<Rightarrow> 'a plugin \<Rightarrow> bool" where
  "implements hookName p =
     (typeof (plugin_get p hookName) = TFunction
      \<or> typeof (optional_member (hooks p) hookName) = TFunction)"

text \<open>
  The priority-sorted view of the current plugins, and the sequence that
  \<^verbatim>\<open>getPluginsWithHook\<close> returns (the contents of the array it hands out).
\<close>

definition sorted_view :: "'a registry \<Rightarrow> 'a plugin list" where
  "sorted_view s = js_sort compare_priority (plugins s)"

definition resolved :: "'a registry \<Rightarrow> string \<Rightarrow> 'a plugin list" where
  "resolved s hookName =
     (case getPluginsWithHook s hookName of (Inr r, s1) \<Rightarrow> deref s1 r | (Inl e, s1) \<Rightarrow> [])"

text \<open>
  The invariant of the registry fields: names are unique, a clean registry holds the
  sorted view, and every cached array is the filtered sorted view of its hook name.
\<close>

definition consistent :: "'a registry \<Rightarrow> bool" where
  "consistent s =
     (distinct (map name (plugins s))
      \<and> (isDirty s \<or> sortedPlugins s = sorted_view s)
      \<and> (\<forall>h. case hookCache s h of None \<Rightarrow> True
              | Some r \<Rightarrow> r < length (arrays s) \<and> fst (arrays s ! r) = filter (listed h) (sorted_view s)))"

text \<open>
  The registry after \<^verbatim>\<open>getPluginsWithHook\<close> has computed and cached a new array.
\<close>

definition cache_miss :: "'a registry \<Rightarrow> string \<Rightarrow> 'a registry" where
  "cache_miss s h =
     (ensureSorted s)\<lparr>arrays := arrays s @ [(filter (listed h) (sorted_view s), False)],
        hookCache := (hookCache s)(h \<mapsto> length (arrays s))\<rparr>"

text \<open>
  The value a dispatcher looks at for a plugin and a hook name, read off the plugin's
  data: the direct attribute when it is truthy, otherwise the entry of the \<open>hooks\<close>
  container when that is an object, otherwise \<^verbatim>\<open>undefined\<close>. The candidate has a hook
  function when this value is a function \<open>JFun f\<close>, and \<open>f\<close> is what dispatch calls.
\<close>

definition selected_hook :: "string \<Rightarrow> 'a plugin \<Rightarrow> 'a jsval" where
  "selected_hook hookName p =
     (if truthy (plugin_get p hookName) then plugin_get p hookName
      else (case hooks p of
              JObject m \<Rightarrow> (case m hookName of None \<Rightarrow> Undefined | Some v \<Rightarrow> v)
            | _ \<Rightarrow> Undefined))"

text \<open>
  Under a synchronous strategy a candidate yields what its hook function returns, and
  \<^verbatim>\<open>null\<close> when it has none, when the call throws, and when it returns \<^verbatim>\<open>undefined\<close> or
  an instance of \<^verbatim>\<open>Promise\<close>. What is observed of it is the call, then an error report
  when the call throws, or a warning when it returns an instance of \<^verbatim>\<open>Promise\<close>. Any
  other returned value, a thenable included, is yielded as it is.
\<close>

fun returned_sync :: "'a jsval + 'a jsval \<Rightarrow> 'a jsval" where
  "returned_sync (Inl e) = Null"
| "returned_sync (Inr (JPromise st)) = Null"
| "returned_sync (Inr Undefined) = Null"
| "returned_sync (Inr v) = v"

fun reported_sync :: "string \<Rightarrow> string \<Rightarrow> 'a jsval + 'a jsval \<Rightarrow> 'a event list" where
  "reported_sync n hookName (Inl e) = [Error_failed n hookName e]"
| "reported_sync n hookName (Inr (JPromise st)) = [Warn_promise n hookName]"
| "reported_sync n hookName (Inr v) = []"

definition sync_yield :: "string \<Rightarrow> 'a \<Rightarrow> 'a plugin \<Rightarrow> 'a jsval" where
  "sync_yield hookName args p =
     (case selected_hook hookName p of JFun f \<Rightarrow> returned_sync (f args) | _ \<Rightarrow> Null)"

definition sync_events :: "string \<Rightarrow> 'a \<Rightarrow> 'a plugin \<Rightarrow> 'a event list" where
  "sync_events hookName args p =
     (case selected_hook hookName p of
        JFun f \<Rightarrow> Called (name p) hookName # reported_sync (name p) hookName (f args)
      | _ \<Rightarrow> [])"

definition first_present :: "'a jsval list \<Rightarrow> 'a jsval" where
  "first_present ys = (case dropWhile (\<lambda>v. v = Null) ys of [] \<Rightarrow> Null | y # rest \<Rightarrow> y)"

text \<open>
  The same notions in the vocabulary of the code, used in the statements about single
  steps of the loops: \<open>callable\<close> tests the value that \<^verbatim>\<open>getHookFunction\<close> returns, and a
  value is present when it is neither \<^verbatim>\<open>null\<close> nor \<^verbatim>\<open>undefined\<close> (\<open>nullish\<close> otherwise).
\<close>

definition callable :: "string \<Rightarrow> 'a plugin \<Rightarrow> bool" where
  "callable hookName p = (typeof (getHookFunction p hookName) = TFunction)"

definition nullish :: "'a jsval \<Rightarrow> bool" where
  "nullish v = (v = Null \<or> v = Undefined)"

definition present :: "'a jsval \<Rightarrow> bool" where
  "present v = (\<not> is_null v \<and> \<not> is_undefined v)"


text \<open>
  Under an asynchronous strategy a candidate yields the value its hook function returns
  or its promise fulfils with, \<^verbatim>\<open>null\<close> when the call throws or the promise rejects, and
  nothing (\<open>None\<close>) when the promise never settles.
\<close>

definition async_yield :: "string \<Rightarrow> 'a \<Rightarrow> 'a plugin \<Rightarrow> 'a jsval option" where
  "async_yield hookName args p =
     (case call (getHookFunction p hookName) args of
        Inl e \<Rightarrow> Some Null
      | Inr v \<Rightarrow>
          (case await v of
             Fulfilled x \<Rightarrow> Some x
           | Rejected e \<Rightarrow> Some Null
           | Pending \<Rightarrow> None))"

definition async_events :: "string \<Rightarrow> 'a \<Rightarrow> 'a plugin \<Rightarrow> 'a event list" where
  "async_events hookName args p =
     (if callable hookName p
      then Called (name p) hookName #
             (case call (getHookFunction p hookName) args of
                Inl e \<Rightarrow> [Error_failed (name p) hookName e]
              | Inr v \<Rightarrow>
                  (case await v of
                     Rejected e \<Rightarrow> [Error_failed (name p) hookName e]
                   | _ \<Rightarrow> []))
      else [])"

fun settled_value :: "('e, 'v) settle \<Rightarrow> 'v option" where
  "settled_value (Fulfilled v) = Some v"
| "settled_value (Rejected e) = None"
| "settled_value Pending = None"

text \<open>
  The same, read off the plugin's data: an awaited hook yields what it returns, or what
  the promise or thenable it returns fulfils with; \<^verbatim>\<open>null\<close> when the call throws or the
  promise rejects, which is reported; nothing when the promise never settles. The first
  asynchronous strategy stops at the first candidate whose yield is present, or that never
  settles; the candidates before it are passed over.
\<close>

fun settled :: "('a jsval, 'a jsval) settle \<Rightarrow> 'a jsval option" where
  "settled (Fulfilled x) = Some x"
| "settled (Rejected e) = Some Null"
| "settled Pending = None"

fun returned_async :: "'a jsval + 'a jsval \<Rightarrow> 'a jsval option" where
  "returned_async (Inl e) = Some Null"
| "returned_async (Inr (JPromise st)) = settled st"
| "returned_async (Inr (JThenable st)) = settled st"
| "returned_async (Inr v) = Some v"

fun reported_async :: "string \<Rightarrow> string \<Rightarrow> 'a jsval + 'a jsval \<Rightarrow> 'a event list" where
  "reported_async n hookName (Inl e) = [Error_failed n hookName e]"
| "reported_async n hookName (Inr (JPromise (Rejected e))) = [Error_failed n hookName e]"
| "reported_async n hookName (Inr (JThenable (Rejected e))) = [Error_failed n hookName e]"
| "reported_async n hookName (Inr v) = []"

definition async_result :: "string \<Rightarrow> 'a \<Rightarrow> 'a plugin \<Rightarrow> 'a jsval option" where
  "async_result hookName args p =
     (case selected_hook hookName p of JFun f \<Rightarrow> returned_async (f args) | _ \<Rightarrow> Some Null)"

definition async_observed :: "string \<Rightarrow> 'a \<Rightarrow> 'a plugin \<Rightarrow> 'a event list" where
  "async_observed hookName args p =
     (case selected_hook hookName p of
        JFun f \<Rightarrow> Called (name p) hookName # reported_async (name p) hookName (f args)
      | _ \<Rightarrow> [])"

fun async_first :: "'a jsval option list \<Rightarrow> ('a jsval, 'a jsval) settle" where
  "async_first [] = Fulfilled Null"
| "async_first (None # ys) = Pending"
| "async_first (Some v # ys) = (if nullish v then async_first ys else Fulfilled v)"

fun passed_over :: "'a jsval option \<Rightarrow> bool" where
  "passed_over None = False"
| "passed_over (Some v) = nullish v"

text \<open>
  A plugin input whose evaluation throws: a factory function that throws when called.
\<close>

fun factory_throws :: "'a plugin_input \<Rightarrow> bool" where
  "factory_throws (Factory f) = (case f () of Inl e \<Rightarrow> True | Inr r \<Rightarrow> False)"
| "factory_throws i = False"

subsection \<open>Plugins of the examples\<close>

text \<open>
  The plugins of the repository's test suite that the examples below use: hooks that
  return a value, throw, or return a promise or a thenable, under a direct attribute or in
  the hooks container, and a hooks container with a number in it. \<open>plugin_hello\<close> is the
  plugin of \<^verbatim>\<open>tests/index.test.ts\<close>, with the input string as the argument.
\<close>

definition plugin_x :: "int \<Rightarrow> unit plugin" where
  "plugin_x n = \<lparr>name = ''x'', priority = Some n, hooks = Undefined, attrs = Map.empty\<rparr>"

definition plugin_returning :: "string \<Rightarrow> unit jsval \<Rightarrow> unit plugin" where
  "plugin_returning n v =
     \<lparr>name = n, priority = None, hooks = Undefined,
      attrs = [''onInit'' \<mapsto> JFun (\<lambda>args. Inr v)]\<rparr>"

definition plugin_hello :: "string plugin" where
  "plugin_hello =
     \<lparr>name = ''hello'', priority = None,
      hooks = JObject [''process'' \<mapsto>
        JFun (\<lambda>input. Inr (JStr (if input \<noteq> ''hello'' then ''hello, '' @ input else input)))],
      attrs = Map.empty\<rparr>"

definition plugin_nested_number :: "unit plugin" where
  "plugin_nested_number =
     \<lparr>name = ''p'', priority = None, hooks = JObject [''onInit'' \<mapsto> JNum 42], attrs = Map.empty\<rparr>"

definition plugin_shadowed :: "unit plugin" where
  "plugin_shadowed =
     \<lparr>name = ''s'', priority = None,
      hooks = JObject [''name'' \<mapsto> JFun (\<lambda>args. Inr (JStr ''never called''))],
      attrs = Map.empty\<rparr>"

definition plugin_async :: "unit plugin" where
  "plugin_async =
     \<lparr>name = ''async'', priority = None, hooks = Undefined,
      attrs = [''onInit'' \<mapsto> JFun (\<lambda>args. Inr (JPromise (Fulfilled (JStr ''async-test''))))]\<rparr>"

definition plugin_async_nested :: "unit plugin" where
  "plugin_async_nested =
     \<lparr>name = ''nested'', priority = None,
      hooks = JObject [''onInit'' \<mapsto>
        JFun (\<lambda>args. Inr (JPromise (Fulfilled (JStr ''nested-test''))))],
      attrs = Map.empty\<rparr>"

definition plugin_thenable :: "unit plugin" where
  "plugin_thenable =
     \<lparr>name = ''thenable'', priority = None, hooks = Undefined,
      attrs = [''onInit'' \<mapsto> JFun (\<lambda>args. Inr (JThenable (Fulfilled (JStr ''t''))))]\<rparr>"


definition plugin_working :: "unit plugin" where
  "plugin_working =
     \<lparr>name = ''working'', priority = None, hooks = Undefined,
      attrs = [''onInit'' \<mapsto> JFun (\<lambda>args. Inr (JStr ''working-test''))]\<rparr>"




section \<open>The filter predicate and the sort\<close>

text \<open>
  The predicate of the filter never throws: \<^verbatim>\<open>in\<close> is only reached for an object. The
  insertion sort with the priority comparator is the library's stable sort by the negated
  priority.
\<close>

lemma typeof_function_has: "typeof (plugin_get p k) = TFunction \<Longrightarrow> plugin_has p k"
  by (cases "hooks p") (auto simp: plugin_get_def plugin_has_def split: if_splits option.splits)

lemma has_hook_total: "has_hook h p = Inr (listed h p)"
  by (cases "hooks p")
     (auto simp: has_hook_def listed_def nested_entry_def direct_function_def
        typeof_function_has split: bool.splits sum.splits)

lemma filter_throwing_total:
  "(\<And>x. P x = Inr (Q x)) \<Longrightarrow> filter_throwing P xs = Inr (filter Q xs)"
  by (induction xs) auto

lemma insert_by_insort:
  "insert_by compare_priority x ys = insort_key (\<lambda>p. - priority_or_0 p) x ys"
  by (induction ys) (auto simp: compare_priority_def)

lemma js_sort_sort_key:
  "js_sort compare_priority xs = sort_key (\<lambda>p. - priority_or_0 p) xs"
  by (induction xs) (auto simp: insert_by_insort)

lemma js_sort_mset: "mset (js_sort compare_priority xs) = mset xs"
  by (simp add: js_sort_sort_key)

lemma js_sort_sorted:
  "sorted_wrt (\<lambda>a b. priority_or_0 a \<ge> priority_or_0 b) (js_sort compare_priority xs)"
proof -
  have "sorted (map (\<lambda>p. - priority_or_0 p) (js_sort compare_priority xs))"
    by (simp add: js_sort_sort_key)
  then show ?thesis
    by (simp add: sorted_map sorted_wrt_iff_nth_less) 
qed

lemma js_sort_stable:
  "filter (\<lambda>p. priority_or_0 p = k) (js_sort compare_priority xs)
     = filter (\<lambda>p. priority_or_0 p = k) xs"
proof -
  have "filter (\<lambda>p. - priority_or_0 p = - k) (sort_key (\<lambda>p. - priority_or_0 p) xs)
          = filter (\<lambda>p. - priority_or_0 p = - k) xs"
    by (rule sort_key_stable)
  then show ?thesis by (simp add: js_sort_sort_key)
qed

section \<open>Registration\<close>

text \<open>
  The loop of \<^verbatim>\<open>use\<close> appends \<open>acc\<close>, a subsequence of the new plugins with fresh and
  pairwise different names, each the first of its name among the new plugins, and warns
  for every other new plugin.
\<close>

lemma use_loop_props:
  "\<exists>acc dropped.
     use_loop ps E log new = (ps @ acc, log @ map (\<lambda>p. Warn_duplicate (name p)) dropped)
     \<and> subseq acc new
     \<and> name ` set acc \<inter> E = {}
     \<and> distinct (map name acc)
     \<and> name ` set acc \<union> E = name ` set new \<union> E
     \<and> (\<forall>p\<in>set acc. find (\<lambda>q. name q = name p) new = Some p)
     \<and> mset acc + mset dropped = mset new"
proof (induction new arbitrary: ps E log)
  case Nil
  show ?case by simp
next
  case (Cons p rest)
  show ?case
  proof (cases "name p \<in> E")
    case True
    from Cons.IH[of ps E "log @ [Warn_duplicate (name p)]"] show ?thesis
    proof (elim exE conjE)
      fix acc dropped
      assume h1: "use_loop ps E (log @ [Warn_duplicate (name p)]) rest
            = (ps @ acc, (log @ [Warn_duplicate (name p)]) @ map (\<lambda>p. Warn_duplicate (name p)) dropped)"
      and h2: "subseq acc rest" and h3: "name ` set acc \<inter> E = {}"
      and h4: "distinct (map name acc)"
      and h5: "name ` set acc \<union> E = name ` set rest \<union> E"
      and h6: "\<forall>q\<in>set acc. find (\<lambda>q'. name q' = name q) rest = Some q"
      and h7: "mset acc + mset dropped = mset rest"
      have g1: "use_loop ps E log (p # rest)
            = (ps @ acc, log @ map (\<lambda>p. Warn_duplicate (name p)) (p # dropped))"
        using True h1 by simp
      have g2: "subseq acc (p # rest)" using h2 by (rule list_emb_Cons)
      have g5: "name ` set acc \<union> E = name ` set (p # rest) \<union> E"
        using h5 True by auto
      have g6: "\<forall>q\<in>set acc. find (\<lambda>q'. name q' = name q) (p # rest) = Some q"
        using h3 h6 True by auto
      have g7: "mset acc + mset (p # dropped) = mset (p # rest)"
        using h7 by simp
      show ?thesis
        by (rule exI[of _ acc], rule exI[of _ "p # dropped"]) (intro conjI g1 g2 h3 h4 g5 g6 g7)
    qed
  next
    case False
    from Cons.IH[of "ps @ [p]" "insert (name p) E" log] show ?thesis
    proof (elim exE conjE)
      fix acc dropped
      assume h1: "use_loop (ps @ [p]) (insert (name p) E) log rest
            = ((ps @ [p]) @ acc, log @ map (\<lambda>p. Warn_duplicate (name p)) dropped)"
      and h2: "subseq acc rest" and h3: "name ` set acc \<inter> insert (name p) E = {}"
      and h4: "distinct (map name acc)"
      and h5: "name ` set acc \<union> insert (name p) E = name ` set rest \<union> insert (name p) E"
      and h6: "\<forall>q\<in>set acc. find (\<lambda>q'. name q' = name q) rest = Some q"
      and h7: "mset acc + mset dropped = mset rest"
      have g1: "use_loop ps E log (p # rest)
            = (ps @ (p # acc), log @ map (\<lambda>p. Warn_duplicate (name p)) dropped)"
        using False h1 by simp
      have g2: "subseq (p # acc) (p # rest)" using h2 by simp
      have g3: "name ` set (p # acc) \<inter> E = {}" using h3 False by auto
      have g4: "distinct (map name (p # acc))" using h3 h4 by auto
      have g5: "name ` set (p # acc) \<union> E = name ` set (p # rest) \<union> E"
        using h5 by auto
      have g6: "\<forall>q\<in>set (p # acc). find (\<lambda>q'. name q' = name q) (p # rest) = Some q"
        using h3 h6 by auto
      have g7: "mset (p # acc) + mset dropped = mset (p # rest)"
        using h7 by simp
      show ?thesis
        by (rule exI[of _ "p # acc"], rule exI[of _ dropped]) (intro conjI g1 g2 g3 g4 g5 g6 g7)
    qed
  qed
qed

lemma use_loop_distinct:
  assumes "distinct (map name ps)"
  shows "distinct (map name (fst (use_loop ps (set (map name ps)) log new)))"
  using use_loop_props[of ps "set (map name ps)" log new] assms
  by (elim exE conjE) auto

section \<open>The registry invariant\<close>

text \<open>
  Every operation keeps the registry consistent, so every registry that a sequence of
  operations leads to is consistent, and there \<^verbatim>\<open>getPluginsWithHook\<close> returns the filtered
  sorted view.
\<close>

lemma consistent_fields0: "consistent fields0"
  by (simp add: consistent_def fields0_def sorted_view_def)

lemma consistent_invalidate:
  "distinct (map name (plugins s)) \<Longrightarrow> consistent (invalidateCache s)"
  by (simp add: consistent_def invalidateCache_def)

lemma consistent_use: 
  assumes "consistent s" 
  shows "consistent (snd (snd (use s inputs)))"
proof (cases "flattenPlugins inputs")
  case (Inl e)
  then show ?thesis using assms by (simp add: use_def)
next
  case (Inr new)
  have "distinct (map name (fst (use_loop (plugins s) (set (map name (plugins s))) [] new)))"
    using assms by (intro use_loop_distinct) (simp add: consistent_def)
  then show ?thesis
    using Inr by (auto simp: use_def split: prod.splits intro!: consistent_invalidate)
qed

lemma filter_same_length: "length (filter P xs) = length xs \<Longrightarrow> filter P xs = xs"
  by (metis filter_True length_filter_less linorder_neq_iff)

lemma consistent_remove: 
  assumes "consistent s" 
  shows "consistent (snd (snd (remove s n)))"
proof (cases "length (filter (\<lambda>p. name p \<noteq> n) (plugins s)) = length (plugins s)")
  case True
  then have "filter (\<lambda>p. name p \<noteq> n) (plugins s) = plugins s"
    by (rule filter_same_length)
  then show ?thesis using assms by (simp add: remove_def Let_def)
next
  case False
  have "distinct (map name (filter (\<lambda>p. name p \<noteq> n) (plugins s)))"
    using assms by (simp add: consistent_def distinct_map_filter)
  then show ?thesis
    using False by (auto simp: remove_def Let_def intro!: consistent_invalidate)
qed

lemma consistent_clear: "consistent s \<Longrightarrow> consistent (snd (snd (clear s)))"
  by (simp add: clear_def consistent_def sorted_view_def)

lemma ensureSorted_sorted:
  "consistent s \<Longrightarrow> sortedPlugins (ensureSorted s) = sorted_view s"
  by (auto simp: ensureSorted_def consistent_def sorted_view_def)

lemma ensureSorted_fields:
  "plugins (ensureSorted s) = plugins s" "hookCache (ensureSorted s) = hookCache s"
  "arrays (ensureSorted s) = arrays s" "isDirty (ensureSorted s) = False"
  by (auto simp: ensureSorted_def)

lemma getPluginsWithHook_hit:
  "hookCache s h = Some r \<Longrightarrow> getPluginsWithHook s h = (Inr r, s)"
  by (simp add: getPluginsWithHook_def)

lemma getPluginsWithHook_miss:
  assumes "consistent s" "hookCache s h = None"
  shows "getPluginsWithHook s h =
     (if filter (listed h) (sorted_view s) \<noteq> []
      then (Inr (length (arrays s)), cache_miss s h)
      else (Inr (Suc (length (arrays s))),
            (cache_miss s h)\<lparr>arrays := arrays s @ [(filter (listed h) (sorted_view s), False), ([], True)]\<rparr>))"
  using assms
  by (simp add: getPluginsWithHook_def Let_def ensureSorted_sorted ensureSorted_fields
        filter_throwing_total[of "has_hook h" "listed h", OF has_hook_total]
        alloc_def cache_miss_def)

lemma sorted_view_update:
  "sorted_view (s\<lparr>arrays := a\<rparr>) = sorted_view s"
  "sorted_view (s\<lparr>hookCache := c\<rparr>) = sorted_view s"
  "sorted_view (ensureSorted s) = sorted_view s"
  by (simp_all add: sorted_view_def ensureSorted_fields)

lemma consistent_cached:
  "consistent s \<Longrightarrow> hookCache s h = Some r \<Longrightarrow>
   r < length (arrays s) \<and> fst (arrays s ! r) = filter (listed h) (sorted_view s)"
  unfolding consistent_def
  by (elim conjE, erule allE[of _ h]) simp

lemma consistent_cache_miss:
  assumes "consistent s" "hookCache s h = None"
  shows "consistent ((cache_miss s h)\<lparr>arrays := arrays s @ (filter (listed h) (sorted_view s), False) # extra\<rparr>)"
proof -
  let ?s' = "(cache_miss s h)\<lparr>arrays := arrays s @ (filter (listed h) (sorted_view s), False) # extra\<rparr>"
  have v: "sorted_view ?s' = sorted_view s"
    by (simp add: cache_miss_def sorted_view_update)
  have a: "distinct (map name (plugins ?s'))"
    using assms(1) by (simp add: consistent_def cache_miss_def ensureSorted_fields)
  have b: "isDirty ?s' \<or> sortedPlugins ?s' = sorted_view ?s'"
    using ensureSorted_sorted[OF assms(1)] 
    by (simp add: cache_miss_def sorted_view_update)
  have c: "case hookCache ?s' h' of None \<Rightarrow> True
        | Some r \<Rightarrow> r < length (arrays ?s') \<and> fst (arrays ?s' ! r) = filter (listed h') (sorted_view ?s')" for h'
  proof (cases "h' = h")
    case True
    then show ?thesis by (simp add: cache_miss_def sorted_view_update)
  next
    case False
    show ?thesis
    proof (cases "hookCache s h'")
      case None
      then show ?thesis using False by (simp add: cache_miss_def)
    next
      case (Some r)
      then show ?thesis using False consistent_cached[OF assms(1) Some]
        by (simp add: cache_miss_def sorted_view_update nth_append)
    qed
  qed
  show ?thesis unfolding consistent_def using a b c by blast
qed

lemma consistent_getPluginsWithHook:
  assumes "consistent s"
  shows "consistent (snd (getPluginsWithHook s h))"
proof (cases "hookCache s h")
  case None
  have e: "cache_miss s h = (cache_miss s h)\<lparr>arrays := arrays s @ (filter (listed h) (sorted_view s), False) # []\<rparr>"
    by (simp add: cache_miss_def)
  show ?thesis
  proof (cases "filter (listed h) (sorted_view s) \<noteq> []")
    case True
    then show ?thesis
      using consistent_cache_miss[OF assms None, of "[]"]
      by (simp add: getPluginsWithHook_miss[OF assms None] e[symmetric])
  next
    case False
    then show ?thesis
      using consistent_cache_miss[OF assms None, of "[([], True)]"]
      by (simp add: getPluginsWithHook_miss[OF assms None])
  qed
next
  case (Some r)
  then show ?thesis using assms by (simp add: getPluginsWithHook_hit)
qed

lemma getPluginsWithHook_returns:
  assumes "consistent s"
  shows "\<exists>r. fst (getPluginsWithHook s h) = Inr r"
proof (cases "hookCache s h")
  case None
  show ?thesis by (simp add: getPluginsWithHook_miss[OF assms None])
next
  case (Some r)
  then show ?thesis by (simp add: getPluginsWithHook_hit)
qed

lemma resolved_eq:
  assumes "consistent s"
  shows "resolved s h = filter (listed h) (sorted_view s)"
proof (cases "hookCache s h")
  case None
  show ?thesis
    by (simp add: resolved_def getPluginsWithHook_miss[OF assms None] deref_def cache_miss_def
          nth_append)
next
  case (Some r)
  show ?thesis
    using Some consistent_cached[OF assms Some]
    by (simp add: resolved_def getPluginsWithHook_hit deref_def)
qed

lemma consistent_apply: "consistent s \<Longrightarrow> consistent (apply_operation s op)"
  by (cases op)
     (simp_all add: consistent_use consistent_remove consistent_clear
        consistent_getPluginsWithHook)

lemma consistent_run: "consistent (run ops)"
  unfolding run_def
  by (induction ops rule: rev_induct) (simp_all add: consistent_fields0 consistent_apply)

lemma priority_or_0_eq: "priority_or_0 p = (case priority p of None \<Rightarrow> 0 | Some n \<Rightarrow> n)"
  by (simp add: priority_or_0_def split: option.splits)

lemma use_run_props:
  assumes "flattenPlugins inputs = Inr new"
  shows "\<exists>acc dropped.
          use s inputs
             = (Inr (), map (\<lambda>p. Warn_duplicate (name p)) dropped,
                invalidateCache (s\<lparr>plugins := plugins s @ acc\<rparr>))
          \<and> subseq acc new
          \<and> mset acc + mset dropped = mset new
          \<and> list_all (\<lambda>p. name p \<notin> name ` set (plugins s)
                         \<and> find (\<lambda>q. name q = name p) new = Some p) acc
          \<and> list_all (\<lambda>d. name d \<in> name ` set (plugins s @ acc)) dropped"
  using use_loop_props[of "plugins s" "set (map name (plugins s))" "[]" new]
proof (elim exE conjE)
  fix acc dropped
  assume h1: "use_loop (plugins s) (set (map name (plugins s))) [] new =
       (plugins s @ acc, [] @ map (\<lambda>p. Warn_duplicate (name p)) dropped)"
    and h2: "subseq acc new"
    and h3: "name ` set acc \<inter> set (map name (plugins s)) = {}"
    and h5: "name ` set acc \<union> set (map name (plugins s)) = name ` set new \<union> set (map name (plugins s))"
    and h6: "\<forall>p\<in>set acc. find (\<lambda>q. name q = name p) new = Some p"
    and h7: "mset acc + mset dropped = mset new"
  have g1: "use s inputs
             = (Inr (), map (\<lambda>p. Warn_duplicate (name p)) dropped,
                invalidateCache (s\<lparr>plugins := plugins s @ acc\<rparr>))"
    using assms h1 by (simp add: use_def)
  have g4: "list_all (\<lambda>p. name p \<notin> name ` set (plugins s)
                         \<and> find (\<lambda>q. name q = name p) new = Some p) acc"
    using h3 h6 by (auto simp: list_all_iff)
  have "set dropped \<subseteq> set new"
    using h7 by (metis mset_subset_eq_add_right set_mset_mono set_mset_mset)
  then have g5: "list_all (\<lambda>d. name d \<in> name ` set (plugins s @ acc)) dropped"
    using h5 by (auto simp: list_all_iff)
  show ?thesis
    by (rule exI[of _ acc], rule exI[of _ dropped]) (intro conjI g1 h2 h7 g4 g5)
qed

section \<open>The dispatch loops\<close>

text \<open>
  One step of each dispatch loop, in terms of what the candidate yields and of the events
  observed; then the result and the events of the whole loop.
\<close>

lemma call_not_function: "typeof v \<noteq> TFunction \<Longrightarrow> call v args = Inl TypeError"
  by (cases v) auto

lemma is_null_iff: "is_null v \<longleftrightarrow> v = Null"
  by (cases v) auto

lemma is_undefined_iff: "is_undefined v \<longleftrightarrow> v = Undefined"
  by (cases v) auto

lemma getHookFunction_selected: "getHookFunction p h = selected_hook h p"
  by (cases "hooks p") (simp_all add: getHookFunction_def selected_hook_def)

lemma returned_sync_eq:
  "returned_sync r =
     (case r of Inl e \<Rightarrow> Null
      | Inr v \<Rightarrow> if instanceof_Promise v \<or> is_undefined v then Null else v)"
  by (cases r rule: returned_sync.cases) simp_all

lemma reported_sync_eq:
  "reported_sync n h r =
     (case r of Inl e \<Rightarrow> [Error_failed n h e]
      | Inr v \<Rightarrow> if instanceof_Promise v then [Warn_promise n h] else [])"
  by (cases "(n, h, r)" rule: reported_sync.cases) simp_all

lemma sync_yield_call:
  "sync_yield h args p =
     (case call (getHookFunction p h) args of
        Inl e \<Rightarrow> Null
      | Inr v \<Rightarrow> if instanceof_Promise v \<or> is_undefined v then Null else v)"
  by (cases "selected_hook h p")
     (simp_all add: sync_yield_def getHookFunction_selected returned_sync_eq)

lemma sync_events_call:
  "sync_events h args p =
     (if callable h p
      then Called (name p) h #
             (case call (getHookFunction p h) args of
                Inl e \<Rightarrow> [Error_failed (name p) h e]
              | Inr v \<Rightarrow> if instanceof_Promise v then [Warn_promise (name p) h] else [])
      else [])"
  by (cases "selected_hook h p")
     (simp_all add: sync_events_def callable_def getHookFunction_selected reported_sync_eq)

lemma returned_async_eq:
  "returned_async r =
     (case r of Inl e \<Rightarrow> Some Null
      | Inr v \<Rightarrow>
          (case await v of
             Fulfilled x \<Rightarrow> Some x
           | Rejected e \<Rightarrow> Some Null
           | Pending \<Rightarrow> None))"
  by (cases r rule: returned_async.cases) (simp_all split: settle.splits)

lemma reported_async_eq:
  "reported_async n h r =
     (case r of Inl e \<Rightarrow> [Error_failed n h e]
      | Inr v \<Rightarrow> (case await v of Rejected e \<Rightarrow> [Error_failed n h e] | _ \<Rightarrow> []))"
  by (cases "(n, h, r)" rule: reported_async.cases) simp_all

lemma async_yield_result: "async_yield h args p = async_result h args p"
  by (cases "selected_hook h p")
     (simp_all add: async_yield_def async_result_def getHookFunction_selected returned_async_eq)

lemma async_events_observed: "async_events h args p = async_observed h args p"
  by (cases "selected_hook h p")
     (simp_all add: async_events_def async_observed_def callable_def getHookFunction_selected
        reported_async_eq)

lemma present_nullish: "present v = (\<not> nullish v)"
  by (cases v) (simp_all add: present_def nullish_def)

lemma getPluginsWithHook_total: "\<exists>r. fst (getPluginsWithHook s h) = Inr r"
  by (simp add: getPluginsWithHook_def Let_def alloc_def
        filter_throwing_total[of "has_hook h" "listed h", OF has_hook_total]
        split: option.splits)

lemma getPluginsWithHook_resolved:
  "\<exists>r. getPluginsWithHook s h = (Inr r, snd (getPluginsWithHook s h))
       \<and> deref (snd (getPluginsWithHook s h)) r = resolved s h"
  using getPluginsWithHook_total[of s h]
  by (cases "getPluginsWithHook s h") (auto simp: resolved_def)

lemma exec_eq:
  "exec s h args =
     (fst (exec_loop h args (resolved s h)), snd (exec_loop h args (resolved s h)),
      snd (getPluginsWithHook s h))"
  using getPluginsWithHook_resolved[of s h]
  by (auto simp: exec_def split: prod.splits)

lemma lib_exec_eq:
  "lib_exec s h args =
     (fst (lib_exec_loop h args (resolved s h)), snd (lib_exec_loop h args (resolved s h)),
      snd (getPluginsWithHook s h))"
  using getPluginsWithHook_resolved[of s h]
  by (auto simp: lib_exec_def split: prod.splits)

lemma exec_loop_step:
  "exec_loop h args (p # rest) =
     (if \<not> callable h p then exec_loop h args rest
      else if is_null (sync_yield h args p)
      then with_log
             (Called (name p) h #
              (case call (getHookFunction p h) args of
                 Inl e \<Rightarrow> [Error_failed (name p) h e]
               | Inr v \<Rightarrow> if instanceof_Promise v then [Warn_promise (name p) h] else []))
             (exec_loop h args rest)
      else (Inr (sync_yield h args p), [Called (name p) h]))"
  by (auto simp: callable_def sync_yield_call Let_def is_null_iff is_undefined_iff
        split: sum.splits)

lemma lib_exec_loop_step:
  "lib_exec_loop h args (p # rest) =
     (if \<not> callable h p then lib_exec_loop h args rest
      else if is_null (sync_yield h args p)
      then with_log
             (Called (name p) h #
              (case call (getHookFunction p h) args of
                 Inl e \<Rightarrow> [Error_failed (name p) h e]
               | Inr v \<Rightarrow> if instanceof_Promise v then [Warn_promise (name p) h] else []))
             (lib_exec_loop h args rest)
      else (Inr (sync_yield h args p), [Called (name p) h]))"
  by (auto simp: callable_def sync_yield_call lib_executeHookSync_def Let_def is_null_iff
        is_undefined_iff with_log_def split: sum.splits)

lemma lib_exec_loop_eq: "lib_exec_loop h args cands = exec_loop h args cands"
proof (induction cands)
  case Nil
  show ?case by simp
next
  case (Cons p rest)
  show ?case unfolding lib_exec_loop_step exec_loop_step Cons.IH ..
qed

lemma not_callable_yield: "\<not> callable h p \<Longrightarrow> sync_yield h args p = Null"
  by (simp add: callable_def sync_yield_call call_not_function)

lemma exec_loop_result:
  "fst (exec_loop h args cands) = Inr (first_present (map (sync_yield h args) cands))"
proof (induction cands)
  case Nil
  show ?case by (simp add: first_present_def)
next
  case (Cons p rest)
  show ?case
    unfolding exec_loop_step using Cons.IH
    by (auto simp: first_present_def with_log_def not_callable_yield is_null_iff)
qed

lemma not_callable_call:
  "\<not> callable h p \<Longrightarrow> call (getHookFunction p h) args = Inl TypeError"
  by (simp add: callable_def call_not_function)

lemma exec_loop_Cons:
  "exec_loop h args (p # rest) =
     (if is_null (sync_yield h args p)
      then with_log (sync_events h args p) (exec_loop h args rest)
      else (Inr (sync_yield h args p), sync_events h args p))"
  unfolding exec_loop_step
  by (auto simp: sync_events_call with_log_def not_callable_yield sync_yield_call
        not_callable_call split: sum.splits)


lemma execAll_loop_Cons:
  "execAll_loop h args results (p # rest) =
     with_log (sync_events h args p)
       (execAll_loop h args
          (if is_null (sync_yield h args p) then results else results @ [sync_yield h args p])
          rest)"
  by (auto simp: sync_events_call with_log_def callable_def sync_yield_call Let_def
        is_null_iff is_undefined_iff call_not_function split: sum.splits)

lemma lib_execAll_loop_Cons:
  "lib_execAll_loop h args results (p # rest) =
     with_log (sync_events h args p)
       (lib_execAll_loop h args
          (if is_null (sync_yield h args p) then results else results @ [sync_yield h args p])
          rest)"
  by (auto simp: sync_events_call with_log_def callable_def sync_yield_call Let_def
        lib_executeHookSync_def is_null_iff is_undefined_iff call_not_function
        split: sum.splits)

lemma execAsync_loop_Cons:
  "execAsync_loop h args (p # rest) =
     (case async_yield h args p of
        None \<Rightarrow> (Pending, async_events h args p)
      | Some v \<Rightarrow>
          if present v then (Fulfilled v, async_events h args p)
          else with_log (async_events h args p) (execAsync_loop h args rest))"
  by (auto simp: async_events_def async_yield_def with_log_def callable_def Let_def present_def
        call_not_function split: sum.splits settle.splits)

lemma lib_execAsync_loop_Cons:
  "lib_execAsync_loop h args (p # rest) =
     (case async_yield h args p of
        None \<Rightarrow> (Pending, async_events h args p)
      | Some v \<Rightarrow>
          if present v then (Fulfilled v, async_events h args p)
          else with_log (async_events h args p) (lib_execAsync_loop h args rest))"
  by (auto simp: async_events_def async_yield_def with_log_def callable_def Let_def present_def
        lib_executeHookAsync_def call_not_function is_null_iff is_undefined_iff
        split: sum.splits settle.splits)

lemma lib_execAllAsync_loop_Cons:
  "lib_execAllAsync_loop h args results (p # rest) =
     (case async_yield h args p of
        None \<Rightarrow> (Pending, async_events h args p)
      | Some v \<Rightarrow>
          with_log (async_events h args p)
            (lib_execAllAsync_loop h args (if present v then results @ [v] else results) rest))"
  by (auto simp: async_events_def async_yield_def with_log_def callable_def Let_def present_def
        lib_executeHookAsync_def call_not_function is_null_iff is_undefined_iff
        split: sum.splits settle.splits)

lemma hookPromise_eq:
  "hookPromise h args p =
     ((case async_yield h args p of None \<Rightarrow> Pending | Some v \<Rightarrow> Fulfilled v),
      (if callable h p then [Called (name p) h] else []),
      tl (async_events h args p))"
  by (auto simp: hookPromise_def async_events_def async_yield_def callable_def Let_def
        call_not_function split: sum.splits settle.splits)

declare exec_loop.simps(2) [simp del] lib_exec_loop.simps(2) [simp del]
  execAll_loop.simps(2) [simp del] lib_execAll_loop.simps(2) [simp del]
  execAsync_loop.simps(2) [simp del] lib_execAsync_loop.simps(2) [simp del]
  lib_execAllAsync_loop.simps(2) [simp del]

lemma execAll_loop_result:
  "fst (execAll_loop h args results cands) =
     Inr (results @ filter (\<lambda>v. \<not> is_null v) (map (sync_yield h args) cands))"
  by (induction cands arbitrary: results) (simp_all add: execAll_loop_Cons with_log_def)

lemma lib_execAll_loop_eq:
  "lib_execAll_loop h args results cands = execAll_loop h args results cands"
proof (induction cands arbitrary: results)
  case Nil
  show ?case by simp
next
  case (Cons p rest)
  show ?case unfolding lib_execAll_loop_Cons execAll_loop_Cons Cons.IH ..
qed

lemma lib_execAsync_loop_eq: "lib_execAsync_loop h args cands = execAsync_loop h args cands"
proof (induction cands)
  case Nil
  show ?case by simp
next
  case (Cons p rest)
  show ?case unfolding lib_execAsync_loop_Cons execAsync_loop_Cons Cons.IH ..
qed



lemma execAll_eq:
  "execAll s h args =
     (fst (execAll_loop h args [] (resolved s h)), snd (execAll_loop h args [] (resolved s h)),
      snd (getPluginsWithHook s h))"
  using getPluginsWithHook_resolved[of s h]
  by (auto simp: execAll_def Let_def split: prod.splits)

lemma lib_execAll_eq:
  "lib_execAll s h args =
     (fst (lib_execAll_loop h args [] (resolved s h)),
      snd (lib_execAll_loop h args [] (resolved s h)), snd (getPluginsWithHook s h))"
  using getPluginsWithHook_resolved[of s h]
  by (auto simp: lib_execAll_def split: prod.splits)

lemma execAsync_eq:
  "execAsync s h args =
     (fst (execAsync_loop h args (resolved s h)), snd (execAsync_loop h args (resolved s h)),
      snd (getPluginsWithHook s h))"
  using getPluginsWithHook_resolved[of s h]
  by (auto simp: execAsync_def split: prod.splits)

lemma lib_execAsync_eq:
  "lib_execAsync s h args =
     (fst (lib_execAsync_loop h args (resolved s h)),
      snd (lib_execAsync_loop h args (resolved s h)), snd (getPluginsWithHook s h))"
  using getPluginsWithHook_resolved[of s h]
  by (auto simp: lib_execAsync_def split: prod.splits)

lemma lib_execAllAsync_eq:
  "lib_execAllAsync s h args =
     (fst (lib_execAllAsync_loop h args [] (resolved s h)),
      snd (lib_execAllAsync_loop h args [] (resolved s h)), snd (getPluginsWithHook s h))"
  using getPluginsWithHook_resolved[of s h]
  by (auto simp: lib_execAllAsync_def split: prod.splits)

lemma call_Inr_callable: "call (getHookFunction p h) args = Inr v \<Longrightarrow> callable h p"
  using not_callable_call[of h p args] by auto

section \<open>Factories\<close>

text \<open>
  \<^verbatim>\<open>flattenPlugins\<close> throws exactly when one of the inputs is a factory that throws.
\<close>

lemma flattenPlugins_loop_ok:
  "list_all (\<lambda>i. \<not> factory_throws i) inputs \<Longrightarrow> \<exists>new. flattenPlugins_loop acc inputs = Inr new"
proof (induction inputs arbitrary: acc)
  case Nil
  show ?case by simp
next
  case (Cons i rest)
  then show ?case
    by (cases i) (auto split: sum.splits produced.splits)
qed

lemma flattenPlugins_loop_throws:
  "\<not> list_all (\<lambda>i. \<not> factory_throws i) inputs \<Longrightarrow> \<exists>e. flattenPlugins_loop acc inputs = Inl e"
proof (induction inputs arbitrary: acc)
  case Nil
  then show ?case by simp
next
  case (Cons i rest)
  then show ?case
    by (cases i) (auto split: sum.splits produced.splits)
qed

section \<open>Promise.all\<close>


lemma execAllAsync_eq:
  "execAllAsync s h args order =
     (if resolved s h = [] then (Fulfilled [], [], snd (getPluginsWithHook s h))
      else
        ((case promise_all (map (\<lambda>p. fst (hookPromise h args p)) (resolved s h)) order of
            Fulfilled results \<Rightarrow>
              Fulfilled (filter (\<lambda>result. \<not> is_null result \<and> \<not> is_undefined result) results)
          | Rejected e \<Rightarrow> Rejected e
          | Pending \<Rightarrow> Pending),
         concat (map (\<lambda>p. fst (snd (hookPromise h args p))) (resolved s h))
           @ settle_events (map (hookPromise h args) (resolved s h)) order,
         snd (getPluginsWithHook s h)))"
  using getPluginsWithHook_resolved[of s h]
  by (auto simp: execAllAsync_def Let_def comp_def split: prod.splits settle.splits)


lemma promise_all_loop_settles:
  assumes "length vals = length ps"
    and "\<And>e. Rejected e \<notin> set ps"
    and "\<forall>i<length ps. vals ! i = None \<or> vals ! i = settled_value (ps ! i)"
    and "\<forall>i<length ps. i \<in> set order \<or> vals ! i = settled_value (ps ! i)"
  shows "promise_all_loop ps vals order =
           (case those (map settled_value ps) of Some vs \<Rightarrow> Fulfilled vs | None \<Rightarrow> Pending)"
  using assms
proof (induction order arbitrary: vals)
  case Nil
  have "vals = map settled_value ps"
    using Nil.prems(1,4) by (intro nth_equalityI) simp_all
  then show ?case by simp
next
  case (Cons i order)
  show ?case
  proof (cases "i < length ps")
    case False
    have c: "\<forall>j<length ps. j \<in> set order \<or> vals ! j = settled_value (ps ! j)"
      using Cons.prems(4) False by auto
    show ?thesis
      using False Cons.IH[OF Cons.prems(1) Cons.prems(2) Cons.prems(3) c] by simp
  next
    case True
    show ?thesis
    proof (cases "ps ! i")
      case (Fulfilled v)
      let ?vals = "vals[i := Some v]"
      have a: "length ?vals = length ps" using Cons.prems(1) by simp
      have b: "\<forall>j<length ps. ?vals ! j = None \<or> ?vals ! j = settled_value (ps ! j)"
        using Cons.prems(1,3) Fulfilled True by (auto simp: nth_list_update)
      have c: "\<forall>j<length ps. j \<in> set order \<or> ?vals ! j = settled_value (ps ! j)"
        using Cons.prems(1,4) Fulfilled True by (auto simp: nth_list_update)
      show ?thesis
        using True Fulfilled Cons.IH[OF a Cons.prems(2) b c] by simp
    next
      case (Rejected e)
      then have "Rejected e \<in> set ps" using True by (metis nth_mem)
      then show ?thesis using Cons.prems(2) by simp
    next
      case Pending
      have "vals ! i = None" using Cons.prems(3) True Pending by auto
      then have c: "\<forall>j<length ps. j \<in> set order \<or> vals ! j = settled_value (ps ! j)"
        using Cons.prems(4) Pending by auto
      show ?thesis
        using True Pending Cons.IH[OF Cons.prems(1) Cons.prems(2) Cons.prems(3) c] by simp
    qed
  qed
qed

lemma promise_all_settles:
  assumes "\<And>e. Rejected e \<notin> set ps" and "{0..<length ps} \<subseteq> set order"
  shows "promise_all ps order =
           (case those (map settled_value ps) of Some vs \<Rightarrow> Fulfilled vs | None \<Rightarrow> Pending)"
  unfolding promise_all_def
  using assms(2) by (intro promise_all_loop_settles assms(1)) auto

lemma hookPromise_settled:
  "settled_value (fst (hookPromise h args p)) = async_yield h args p"
  by (simp add: hookPromise_eq split: option.splits)

lemma hookPromise_not_rejected: "fst (hookPromise h args p) \<noteq> Rejected e"
  by (simp add: hookPromise_eq split: option.splits)

lemma execAllAsync_result:
  assumes "{0..<length (resolved s h)} \<subseteq> set order"
  shows "fst (execAllAsync s h args order) =
           (case those (map (async_yield h args) (resolved s h)) of
              Some vs \<Rightarrow> Fulfilled (filter present vs)
            | None \<Rightarrow> Pending)"
proof (cases "resolved s h = []")
  case True
  then show ?thesis by (simp add: execAllAsync_eq)
next
  case False
  let ?ps = "map (\<lambda>p. fst (hookPromise h args p)) (resolved s h)"
  have nr: "\<And>e. Rejected e \<notin> set ?ps"
    using hookPromise_not_rejected[of h args] by (auto simp: image_iff) metis
  have o: "{0..<length ?ps} \<subseteq> set order" using assms by simp
  have m: "map settled_value ?ps = map (async_yield h args) (resolved s h)"
    by (simp add: hookPromise_settled comp_def)
  have p: "present = (\<lambda>result :: 'a jsval. \<not> is_null result \<and> \<not> is_undefined result)"
    by (simp add: present_def fun_eq_iff)
  have "fst (execAllAsync s h args order) =
          (case promise_all ?ps order of
             Fulfilled results \<Rightarrow> Fulfilled (filter present results)
           | Rejected e \<Rightarrow> Rejected e
           | Pending \<Rightarrow> Pending)"
    using False by (simp add: execAllAsync_eq p split: settle.splits)
  also have "\<dots> = (case those (map settled_value ?ps) of
                      Some vs \<Rightarrow> Fulfilled (filter present vs)
                    | None \<Rightarrow> Pending)"
    unfolding promise_all_settles[OF nr o] by (simp split: option.splits)
  finally show ?thesis unfolding m .
qed

lemma lib_execAllAsync_loop_result:
  "fst (lib_execAllAsync_loop h args results cands) =
     (case those (map (async_yield h args) cands) of
        Some vs \<Rightarrow> Fulfilled (results @ filter present vs)
      | None \<Rightarrow> Pending)"
  by (induction cands arbitrary: results)
     (auto simp: lib_execAllAsync_loop_Cons with_log_def split: option.splits)






lemma exec_loop_log:
  "snd (exec_loop h args cands) =
     concat (map (sync_events h args)
       (take (Suc (length (takeWhile (\<lambda>v. v = Null) (map (sync_yield h args) cands)))) cands))"
  by (induction cands) (simp_all add: exec_loop_Cons with_log_def is_null_iff)

lemma execAll_loop_log:
  "snd (execAll_loop h args results cands) = concat (map (sync_events h args) cands)"
  by (induction cands arbitrary: results) (simp_all add: execAll_loop_Cons with_log_def)

lemma execAll_loop_values:
  "fst (execAll_loop h args results cands) =
     Inr (results @ filter (\<lambda>v. v \<noteq> Null) (map (sync_yield h args) cands))"
  by (simp add: execAll_loop_result is_null_iff)

lemma execAsync_loop_Cons':
  "execAsync_loop h args (p # rest) =
     (case async_result h args p of
        None \<Rightarrow> (Pending, async_observed h args p)
      | Some v \<Rightarrow>
          if nullish v then with_log (async_observed h args p) (execAsync_loop h args rest)
          else (Fulfilled v, async_observed h args p))"
  by (simp add: execAsync_loop_Cons async_yield_result async_events_observed present_nullish
        split: option.splits)

lemma execAsync_loop_first:
  "fst (execAsync_loop h args cands) = async_first (map (async_result h args) cands)"
proof (induction cands)
  case Nil
  show ?case by simp
next
  case (Cons p rest)
  show ?case
  proof (cases "async_result h args p")
    case None
    then show ?thesis by (simp add: execAsync_loop_Cons')
  next
    case (Some v)
    then show ?thesis using Cons.IH by (simp add: execAsync_loop_Cons' with_log_def)
  qed
qed

lemma execAsync_loop_log:
  "snd (execAsync_loop h args cands) =
     concat (map (async_observed h args)
       (take (Suc (length (takeWhile passed_over (map (async_result h args) cands)))) cands))"
proof (induction cands)
  case Nil
  show ?case by simp
next
  case (Cons p rest)
  show ?case
  proof (cases "async_result h args p")
    case None
    then show ?thesis by (simp add: execAsync_loop_Cons')
  next
    case (Some v)
    then show ?thesis using Cons.IH by (simp add: execAsync_loop_Cons' with_log_def)
  qed
qed

lemma those_async_eq:
  "(case those (map (async_yield h (args :: 'a)) cands) of
      Some vs \<Rightarrow> Fulfilled (filter present vs) | None \<Rightarrow> Pending) =
   (case those (map (async_result h args) cands) of
      Some vs \<Rightarrow> Fulfilled (filter (\<lambda>v. \<not> nullish v) vs) | None \<Rightarrow> Pending)"
proof -
  have a: "map (async_yield h args) cands = map (async_result h args) cands"
    by (simp add: async_yield_result)
  have b: "filter present vs = filter (\<lambda>v. \<not> nullish v) vs" for vs :: "'a jsval list"
    by (rule filter_cong) (simp_all add: present_nullish)
  show ?thesis unfolding a
    by (cases "those (map (async_result h args) cands)") (simp_all only: option.case b)
qed

section \<open>The claims\<close>

text \<open>
  The definitions that evaluating a concrete run unfolds.
\<close>

lemmas eval_defs =
  run_def use_def flattenPlugins_def invalidateCache_def fields0_def remove_def clear_def
  resolved_def getPluginsWithHook_def ensureSorted_def has_hook_def alloc_def deref_def
  compare_priority_def priority_or_0_def plugin_get_def plugin_has_def getHookFunction_def
  with_log_def Let_def

text \<open>
  C1. For every registry, hook name and arguments, \<^verbatim>\<open>exec\<close> returns the first value
  other than \<^verbatim>\<open>null\<close> that the candidates of \<^verbatim>\<open>getPluginsWithHook\<close> yield, taken in their
  resolved order, and \<^verbatim>\<open>null\<close> when there is none; the value is the one the hook function
  returned, also when it is 0, the empty string or \<^verbatim>\<open>false\<close>. What is observed is, in
  order, the calls (and reports) of the candidates up to and including the first that
  yields such a value, and nothing of any candidate after it. The yield and the events of
  a candidate are those of \<open>sync_yield\<close> and \<open>sync_events\<close>, which are read off the plugin's
  attributes and hooks container. \<^verbatim>\<open>exec\<close> of the library classes does the same.
\<close>

theorem C1_exec_first_present:
  "exec s h args =
     (Inr (first_present (map (sync_yield h args) (resolved s h))),
      concat (map (sync_events h args)
        (take (Suc (length (takeWhile (\<lambda>v. v = Null) (map (sync_yield h args) (resolved s h)))))
           (resolved s h))),
      snd (getPluginsWithHook s h))
   \<and> lib_exec s h args = exec s h args"
  by (simp add: exec_eq lib_exec_eq exec_loop_result exec_loop_log lib_exec_loop_eq)

text \<open>
  The test of the repository: the hook \<^verbatim>\<open>process\<close> in the hooks container of the plugin
  \<^verbatim>\<open>hello\<close> is called and answers \<^verbatim>\<open>"hello, world"\<close> for \<^verbatim>\<open>"world"\<close> and \<^verbatim>\<open>"hello"\<close> for
  \<^verbatim>\<open>"hello"\<close>. And plugins A (returns \<^verbatim>\<open>null\<close>), B (returns 0) and C: \<^verbatim>\<open>exec\<close> returns 0,
  having called A and B and not C.
\<close>

theorem C1_witness:
  "exec (run [Use [Direct plugin_hello]]) ''process'' ''world'' =
     (Inr (JStr ''hello, world''), [Called ''hello'' ''process''],
      run [Use [Direct plugin_hello], Resolve ''process''])
   \<and> exec (run [Use [Direct plugin_hello]]) ''process'' ''hello'' =
     (Inr (JStr ''hello''), [Called ''hello'' ''process''],
      run [Use [Direct plugin_hello], Resolve ''process''])
   \<and> exec (run [Use [Direct (plugin_returning ''A'' Null), Direct (plugin_returning ''B'' (JNum 0)),
                   Direct (plugin_returning ''C'' (JStr ''c''))]]) ''onInit'' () =
     (Inr (JNum 0), [Called ''A'' ''onInit'', Called ''B'' ''onInit''],
      run [Use [Direct (plugin_returning ''A'' Null), Direct (plugin_returning ''B'' (JNum 0)),
                Direct (plugin_returning ''C'' (JStr ''c''))], Resolve ''onInit''])"
proof -
  have r1: "resolved (run [Use [Direct plugin_hello]]) ''process'' = [plugin_hello]"
    by (simp add: eval_defs plugin_hello_def)
  have s1: "snd (getPluginsWithHook (run [Use [Direct plugin_hello]]) ''process'')
              = run [Use [Direct plugin_hello], Resolve ''process'']"
    by (simp add: run_def)
  have y1: "sync_yield ''process'' ''world'' plugin_hello = JStr ''hello, world''"
       "sync_yield ''process'' ''hello'' plugin_hello = JStr ''hello''"
       "sync_events ''process'' ''world'' plugin_hello = [Called ''hello'' ''process'']"
       "sync_events ''process'' ''hello'' plugin_hello = [Called ''hello'' ''process'']"
    by (simp_all add: sync_yield_def sync_events_def selected_hook_def plugin_get_def
          plugin_hello_def)
  let ?A = "plugin_returning ''A'' Null" and ?B = "plugin_returning ''B'' (JNum 0)"
    and ?C = "plugin_returning ''C'' (JStr ''c'')"
  have r2: "resolved (run [Use [Direct ?A, Direct ?B, Direct ?C]]) ''onInit'' = [?A, ?B, ?C]"
    by (simp add: eval_defs plugin_returning_def)
  have s2: "snd (getPluginsWithHook (run [Use [Direct ?A, Direct ?B, Direct ?C]]) ''onInit'')
              = run [Use [Direct ?A, Direct ?B, Direct ?C], Resolve ''onInit'']"
    by (simp add: run_def)
  have y2: "sync_yield ''onInit'' () ?A = Null" "sync_yield ''onInit'' () ?B = JNum 0"
       "sync_events ''onInit'' () ?A = [Called ''A'' ''onInit'']"
       "sync_events ''onInit'' () ?B = [Called ''B'' ''onInit'']"
    by (simp_all add: sync_yield_def sync_events_def selected_hook_def plugin_get_def
          plugin_returning_def)
  note t1 = C1_exec_first_present[of "run [Use [Direct plugin_hello]]" "''process''" "''world''",
      THEN conjunct1]
  note t2 = C1_exec_first_present[of "run [Use [Direct plugin_hello]]" "''process''" "''hello''",
      THEN conjunct1]
  note t3 = C1_exec_first_present[of "run [Use [Direct ?A, Direct ?B, Direct ?C]]" "''onInit''" "()",
      THEN conjunct1]
  show ?thesis
    unfolding t1 t2 t3 r1 r2 s1 s2
    by (simp add: y1 y2 first_present_def)
qed

text \<open>
  With priorities 5 and 10 registered in that order, the plugin of priority 10 answers
  and the other one is not called.
\<close>

lemma exec_example_priority:
  "fst (exec (run [Use [Direct ((plugin_returning ''second'' (JStr ''second-test''))\<lparr>priority := Some 5\<rparr>),
                        Direct ((plugin_returning ''first'' (JStr ''first-test''))\<lparr>priority := Some 10\<rparr>)]])
          ''onInit'' ()) = Inr (JStr ''first-test'')
   \<and> fst (snd (exec (run [Use [Direct ((plugin_returning ''second'' (JStr ''second-test''))\<lparr>priority := Some 5\<rparr>),
                        Direct ((plugin_returning ''first'' (JStr ''first-test''))\<lparr>priority := Some 10\<rparr>)]])
          ''onInit'' ())) = [Called ''first'' ''onInit'']"
  by (simp add: exec_def eval_defs plugin_returning_def exec_loop.simps)

text \<open>
  C2. After every sequence of \<^verbatim>\<open>use\<close>, \<^verbatim>\<open>remove\<close>, \<^verbatim>\<open>clear\<close> and queries, no two plugins
  of the registry share a name. A \<^verbatim>\<open>use\<close> whose factories do not throw keeps the plugins
  already registered, in place, and appends \<open>acc\<close>: the new plugins, in order, whose name
  is not registered yet and that are the first of their name in this call. Every other new
  plugin is dropped with a warning, and a plugin of its name is in the registry afterwards.
  \<^verbatim>\<open>remove\<close> and \<^verbatim>\<open>clear\<close> only take plugins away.
\<close>

theorem C2_unique_names:
  "distinct (map name (plugins (run ops)))
   \<and> (case flattenPlugins inputs of
        Inl e \<Rightarrow> use (run ops) inputs = (Inl e, [], run ops)
      | Inr new \<Rightarrow>
          (\<exists>acc dropped.
             use (run ops) inputs
               = (Inr (), map (\<lambda>p. Warn_duplicate (name p)) dropped,
                  invalidateCache ((run ops)\<lparr>plugins := plugins (run ops) @ acc\<rparr>))
             \<and> subseq acc new
             \<and> mset acc + mset dropped = mset new
             \<and> list_all (\<lambda>p. name p \<notin> name ` set (plugins (run ops))
                            \<and> find (\<lambda>q. name q = name p) new = Some p) acc
             \<and> list_all (\<lambda>d. name d \<in> name ` set (plugins (run ops) @ acc)) dropped))
   \<and> plugins (snd (snd (remove (run ops) n))) = filter (\<lambda>p. name p \<noteq> n) (plugins (run ops))
   \<and> plugins (snd (snd (clear (run ops)))) = []"
proof (intro conjI)
  show "distinct (map name (plugins (run ops)))"
    using consistent_run[of ops] by (simp add: consistent_def)
  show "case flattenPlugins inputs of
        Inl e \<Rightarrow> use (run ops) inputs = (Inl e, [], run ops)
      | Inr new \<Rightarrow>
          (\<exists>acc dropped.
             use (run ops) inputs
               = (Inr (), map (\<lambda>p. Warn_duplicate (name p)) dropped,
                  invalidateCache ((run ops)\<lparr>plugins := plugins (run ops) @ acc\<rparr>))
             \<and> subseq acc new
             \<and> mset acc + mset dropped = mset new
             \<and> list_all (\<lambda>p. name p \<notin> name ` set (plugins (run ops))
                            \<and> find (\<lambda>q. name q = name p) new = Some p) acc
             \<and> list_all (\<lambda>d. name d \<in> name ` set (plugins (run ops) @ acc)) dropped)"
  proof (cases "flattenPlugins inputs")
    case (Inl e)
    then show ?thesis by (simp add: use_def)
  next
    case (Inr new)
    then show ?thesis using use_run_props[OF Inr, of "run ops"] by simp
  qed
  show "plugins (snd (snd (remove (run ops) n))) = filter (\<lambda>p. name p \<noteq> n) (plugins (run ops))"
    by (simp add: remove_def Let_def invalidateCache_def)
  show "plugins (snd (snd (clear (run ops)))) = []"
    by (simp add: clear_def)
qed

text \<open>
  Registering \<^verbatim>\<open>{name: "x", priority: 1}\<close>, then \<^verbatim>\<open>{name: "x", priority: 2}\<close>: priority 1
  stays, with one warning.
\<close>

lemma use_example_duplicate:
  "plugins (run [Use [Direct (plugin_x 1)], Use [Direct (plugin_x 2)]]) = [plugin_x 1]
   \<and> fst (snd (use (run [Use [Direct (plugin_x 1)]]) [Direct (plugin_x 2)])) = [Warn_duplicate ''x'']"
  by (simp add: run_def use_def flattenPlugins_def invalidateCache_def fields0_def plugin_x_def)

text \<open>
  C3. The priority-sorted view that \<^verbatim>\<open>ensureSorted\<close> leaves in \<^verbatim>\<open>sortedPlugins\<close>, and that
  \<^verbatim>\<open>getPluginsWithHook\<close> (hence every dispatch strategy) filters, is a stable sort of the
  current plugins by descending priority: it has the same plugins, a higher priority comes
  first, plugins of equal priority keep their insertion order, and an absent priority
  counts as 0. This holds after every sequence of operations.
\<close>

theorem C3_sorted_view:
  "sortedPlugins (ensureSorted (run ops)) = sorted_view (run ops)
   \<and> resolved (run ops) h = filter (listed h) (sorted_view (run ops))
   \<and> mset (sorted_view (run ops)) = mset (plugins (run ops))
   \<and> sorted_wrt (\<lambda>a b. priority_or_0 a \<ge> priority_or_0 b) (sorted_view (run ops))
   \<and> (\<forall>k. filter (\<lambda>p. priority_or_0 p = k) (sorted_view (run ops))
            = filter (\<lambda>p. priority_or_0 p = k) (plugins (run ops)))
   \<and> (\<forall>p :: 'a plugin. priority_or_0 p = (case priority p of None \<Rightarrow> 0 | Some n \<Rightarrow> n))"
proof (intro conjI allI)
  show "sortedPlugins (ensureSorted (run ops)) = sorted_view (run ops)"
    by (rule ensureSorted_sorted[OF consistent_run])
  show "resolved (run ops) h = filter (listed h) (sorted_view (run ops))"
    by (rule resolved_eq[OF consistent_run])
  show "mset (sorted_view (run ops)) = mset (plugins (run ops))"
    by (simp add: sorted_view_def js_sort_mset)
  show "sorted_wrt (\<lambda>a b. priority_or_0 a \<ge> priority_or_0 b) (sorted_view (run ops))"
    by (simp add: sorted_view_def js_sort_sorted)
  show "filter (\<lambda>p. priority_or_0 p = k) (sorted_view (run ops))
          = filter (\<lambda>p. priority_or_0 p = k) (plugins (run ops))" for k
    by (simp add: sorted_view_def js_sort_stable)
  show "priority_or_0 p = (case priority p of None \<Rightarrow> 0 | Some n \<Rightarrow> n)" for p :: "'a plugin"
    by (rule priority_or_0_eq)
qed

text \<open>
  C4, as stated, fails: a plugin whose only association with \<^verbatim>\<open>onInit\<close> is the number 42
  stored under that key in its \<open>hooks\<close> container is returned by \<^verbatim>\<open>getPluginsWithHook\<close>,
  although no callable is resolvable for it.
\<close>

theorem C4_counterexample:
  "resolved (run [Use [Direct plugin_nested_number]]) ''onInit'' = [plugin_nested_number]
   \<and> \<not> implements ''onInit'' plugin_nested_number"
  by (simp add: eval_defs implements_def plugin_nested_number_def)

text \<open>
  C4, amended. After every sequence of operations, \<^verbatim>\<open>getPluginsWithHook\<close> returns without
  error exactly the plugins of the sorted view that have a callable direct attribute
  named \<open>hookName\<close>, or whose \<open>hooks\<close> container is an object with a key \<open>hookName\<close>,
  whatever the value under that key. A plugin whose only association with \<open>hookName\<close> is a
  non-callable direct attribute is excluded; an absent, null or non-object \<open>hooks\<close>
  container contributes no nested hooks.
\<close>

theorem C4_resolve_exact:
  "(\<exists>r. fst (getPluginsWithHook (run ops) h) = Inr r)
   \<and> resolved (run ops) h = filter (listed h) (sorted_view (run ops))
   \<and> (\<forall>p :: 'a plugin. listed h p =
         (typeof (plugin_get p h) = TFunction
          \<or> (case hooks p of JObject m \<Rightarrow> m h \<noteq> None | _ \<Rightarrow> False)))"
  using getPluginsWithHook_returns[OF consistent_run, of ops h] resolved_eq[OF consistent_run, of ops h]
  by (auto simp: listed_def nested_entry_def direct_function_def)

text \<open>
  C5. On a registry without plugins, the first \<^verbatim>\<open>getPluginsWithHook("onInit")\<close> creates two
  arrays: the empty filter result, which it caches (reference 0), and a frozen empty array,
  which it returns (reference 1). The second call returns the cached array, reference 0:
  two consecutive calls with no mutation in between return different objects, and no
  shared empty array exists. From the second call on the reference is stable.
\<close>

theorem C5_empty_result_two_arrays:
  "fst (getPluginsWithHook (run [Use []] :: unit registry) ''onInit'') = Inr 1
   \<and> fst (getPluginsWithHook (run [Use [], Resolve ''onInit''] :: unit registry) ''onInit'')
       = Inr 0
   \<and> arrays (run [Use [], Resolve ''onInit''] :: unit registry) = [([], False), ([], True)]
   \<and> fst (getPluginsWithHook
            (run [Use [], Resolve ''onInit'', Resolve ''onInit''] :: unit registry) ''onInit'')
       = Inr 0"
  by (simp add: eval_defs)

text \<open>
  For a non-empty result the second call returns what the first returned and changes
  nothing; and a call that finds no cached entry, as after every invalidation, returns an
  array created by that call.
\<close>

lemma resolve_again_nonempty:
  assumes "consistent s" and "resolved s h \<noteq> []"
  shows "getPluginsWithHook (snd (getPluginsWithHook s h)) h = getPluginsWithHook s h"
proof (cases "hookCache s h")
  case None
  have "filter (listed h) (sorted_view s) \<noteq> []"
    using assms by (simp add: resolved_eq)
  then show ?thesis
    by (simp add: getPluginsWithHook_miss[OF assms(1) None])
       (simp add: getPluginsWithHook_def cache_miss_def)
next
  case (Some r)
  then show ?thesis by (simp add: getPluginsWithHook_hit)
qed

lemma resolve_miss_fresh:
  assumes "hookCache s h = None"
  shows "\<exists>r. fst (getPluginsWithHook s h) = Inr r \<and> length (arrays s) \<le> r"
  using assms
  by (simp add: getPluginsWithHook_def Let_def alloc_def ensureSorted_fields
        filter_throwing_total[of "has_hook h" "listed h", OF has_hook_total])




text \<open>
  C7, as stated, fails for a promise-like value that is not an instance of \<^verbatim>\<open>Promise\<close>:
  a hook that returns a thenable under \<^verbatim>\<open>exec\<close> or \<^verbatim>\<open>execAll\<close> gets no warning, the
  thenable is returned, or collected, as a present result, and \<^verbatim>\<open>exec\<close> does not go on
  to the next candidate.
\<close>

theorem C7_counterexample:
  "exec (run [Use [Direct plugin_thenable, Direct plugin_working]]) ''onInit'' () =
     (Inr (JThenable (Fulfilled (JStr ''t''))), [Called ''thenable'' ''onInit''],
      run [Use [Direct plugin_thenable, Direct plugin_working], Resolve ''onInit''])
   \<and> execAll (run [Use [Direct plugin_thenable, Direct plugin_working]]) ''onInit'' () =
     (Inr [JThenable (Fulfilled (JStr ''t'')), JStr ''working-test''],
      [Called ''thenable'' ''onInit'', Called ''working'' ''onInit''],
      run [Use [Direct plugin_thenable, Direct plugin_working], Resolve ''onInit''])"
  by (simp add: exec_def execAll_def eval_defs plugin_thenable_def plugin_working_def
        exec_loop.simps execAll_loop.simps)

text \<open>
  C7, amended. In every registry, the four strategies of both sources compute their
  result and their events from what the candidates yield, as \<open>sync_yield\<close>, \<open>sync_events\<close>,
  \<open>async_result\<close> and \<open>async_observed\<close> say. For a candidate whose hook function returns an
  instance of \<^verbatim>\<open>Promise\<close>, the synchronous strategies call it, warn with the plugin and
  hook name, take its result as absent, do not throw, and go on with the next candidate;
  the asynchronous strategies yield what the promise fulfils with. For a candidate whose
  hook function returns a thenable that is not an instance of \<^verbatim>\<open>Promise\<close>, the synchronous
  strategies take the thenable itself as a present result, with no warning; the
  asynchronous strategies await it like a promise.
\<close>

theorem C7_promise_under_sync:
  "exec s h args =
     (Inr (first_present (map (sync_yield h args) (resolved s h))),
      concat (map (sync_events h args)
        (take (Suc (length (takeWhile (\<lambda>v. v = Null) (map (sync_yield h args) (resolved s h)))))
           (resolved s h))),
      snd (getPluginsWithHook s h))
   \<and> lib_exec s h args = exec s h args
   \<and> execAll s h args =
       (Inr (filter (\<lambda>v. v \<noteq> Null) (map (sync_yield h args) (resolved s h))),
        concat (map (sync_events h args) (resolved s h)),
        snd (getPluginsWithHook s h))
   \<and> lib_execAll s h args = execAll s h args
   \<and> execAsync s h args =
       (async_first (map (async_result h args) (resolved s h)),
        concat (map (async_observed h args)
          (take (Suc (length (takeWhile passed_over (map (async_result h args) (resolved s h)))))
             (resolved s h))),
        snd (getPluginsWithHook s h))
   \<and> lib_execAsync s h args = execAsync s h args
   \<and> fst (lib_execAllAsync s h args) =
       (case those (map (async_result h args) (resolved s h)) of
          Some vs \<Rightarrow> Fulfilled (filter (\<lambda>v. \<not> nullish v) vs)
        | None \<Rightarrow> Pending)
   \<and> (mset order = mset [0..<length (resolved s h)] \<longrightarrow>
        fst (execAllAsync s h args order) =
          (case those (map (async_result h args) (resolved s h)) of
             Some vs \<Rightarrow> Fulfilled (filter (\<lambda>v. \<not> nullish v) vs)
           | None \<Rightarrow> Pending))
   \<and> (selected_hook h p = JFun f \<and> f args = Inr (JPromise st) \<longrightarrow>
        sync_yield h args p = Null
        \<and> sync_events h args p = [Called (name p) h, Warn_promise (name p) h]
        \<and> async_result h args p = settled st)
   \<and> (selected_hook h p = JFun f \<and> f args = Inr (JThenable st) \<longrightarrow>
        sync_yield h args p = JThenable st
        \<and> sync_events h args p = [Called (name p) h]
        \<and> async_result h args p = settled st)"
proof (intro conjI)
  show "exec s h args =
     (Inr (first_present (map (sync_yield h args) (resolved s h))),
      concat (map (sync_events h args)
        (take (Suc (length (takeWhile (\<lambda>v. v = Null) (map (sync_yield h args) (resolved s h)))))
           (resolved s h))),
      snd (getPluginsWithHook s h))"
    by (simp add: exec_eq exec_loop_result exec_loop_log)
  show "lib_exec s h args = exec s h args"
    by (simp add: exec_eq lib_exec_eq lib_exec_loop_eq)
  show "execAll s h args =
       (Inr (filter (\<lambda>v. v \<noteq> Null) (map (sync_yield h args) (resolved s h))),
        concat (map (sync_events h args) (resolved s h)),
        snd (getPluginsWithHook s h))"
    by (simp add: execAll_eq execAll_loop_values execAll_loop_log)
  show "lib_execAll s h args = execAll s h args"
    by (simp add: execAll_eq lib_execAll_eq lib_execAll_loop_eq)
  show "execAsync s h args =
       (async_first (map (async_result h args) (resolved s h)),
        concat (map (async_observed h args)
          (take (Suc (length (takeWhile passed_over (map (async_result h args) (resolved s h)))))
             (resolved s h))),
        snd (getPluginsWithHook s h))"
    by (simp add: execAsync_eq execAsync_loop_first execAsync_loop_log)
  show "lib_execAsync s h args = execAsync s h args"
    by (simp add: execAsync_eq lib_execAsync_eq lib_execAsync_loop_eq)
  show "fst (lib_execAllAsync s h args) =
       (case those (map (async_result h args) (resolved s h)) of
          Some vs \<Rightarrow> Fulfilled (filter (\<lambda>v. \<not> nullish v) vs)
        | None \<Rightarrow> Pending)"
    unfolding those_async_eq[symmetric]
    by (simp add: lib_execAllAsync_eq lib_execAllAsync_loop_result split: option.splits)
  show "mset order = mset [0..<length (resolved s h)] \<longrightarrow>
        fst (execAllAsync s h args order) =
          (case those (map (async_result h args) (resolved s h)) of
             Some vs \<Rightarrow> Fulfilled (filter (\<lambda>v. \<not> nullish v) vs)
           | None \<Rightarrow> Pending)"
  proof
    assume m: "mset order = mset [0..<length (resolved s h)]"
    have "set order = set [0..<length (resolved s h)]" using m by (rule mset_eq_setD)
    then have o: "{0..<length (resolved s h)} \<subseteq> set order" by simp
    show "fst (execAllAsync s h args order) =
          (case those (map (async_result h args) (resolved s h)) of
             Some vs \<Rightarrow> Fulfilled (filter (\<lambda>v. \<not> nullish v) vs)
           | None \<Rightarrow> Pending)"
      unfolding those_async_eq[symmetric] by (rule execAllAsync_result[OF o])
  qed
  show "selected_hook h p = JFun f \<and> f args = Inr (JPromise st) \<longrightarrow>
        sync_yield h args p = Null
        \<and> sync_events h args p = [Called (name p) h, Warn_promise (name p) h]
        \<and> async_result h args p = settled st"
    by (simp add: sync_yield_def sync_events_def async_result_def)
  show "selected_hook h p = JFun f \<and> f args = Inr (JThenable st) \<longrightarrow>
        sync_yield h args p = JThenable st
        \<and> sync_events h args p = [Called (name p) h]
        \<and> async_result h args p = settled st"
    by (simp add: sync_yield_def sync_events_def async_result_def)
qed

text \<open>
  A hook in the hooks container that returns a promise of \<^verbatim>\<open>"nested-test"\<close>, followed by
  a plugin that answers; and the test of the repository, a direct hook that returns a
  promise.
\<close>

theorem C7_witness:
  "selected_hook ''onInit'' plugin_async_nested
     = JFun (\<lambda>args. Inr (JPromise (Fulfilled (JStr ''nested-test''))))
   \<and> exec (run [Use [Direct plugin_async_nested, Direct plugin_working]]) ''onInit'' () =
       (Inr (JStr ''working-test''),
        [Called ''nested'' ''onInit'', Warn_promise ''nested'' ''onInit'',
         Called ''working'' ''onInit''],
        run [Use [Direct plugin_async_nested, Direct plugin_working], Resolve ''onInit''])
   \<and> execAll (run [Use [Direct plugin_async_nested, Direct plugin_working]]) ''onInit'' () =
       (Inr [JStr ''working-test''],
        [Called ''nested'' ''onInit'', Warn_promise ''nested'' ''onInit'',
         Called ''working'' ''onInit''],
        run [Use [Direct plugin_async_nested, Direct plugin_working], Resolve ''onInit''])
   \<and> execAsync (run [Use [Direct plugin_async_nested, Direct plugin_working]]) ''onInit'' () =
       (Fulfilled (JStr ''nested-test''), [Called ''nested'' ''onInit''],
        run [Use [Direct plugin_async_nested, Direct plugin_working], Resolve ''onInit''])
   \<and> exec (run [Use [Direct plugin_async]]) ''onInit'' () =
       (Inr Null, [Called ''async'' ''onInit'', Warn_promise ''async'' ''onInit''],
        run [Use [Direct plugin_async], Resolve ''onInit''])"
proof -
  let ?S = "run [Use [Direct plugin_async_nested, Direct plugin_working]]"
  let ?f = "\<lambda>args :: unit. Inr (JPromise (Fulfilled (JStr ''nested-test''))) :: unit jsval + unit jsval"
  let ?g = "\<lambda>args :: unit. Inr (JPromise (Fulfilled (JStr ''async-test''))) :: unit jsval + unit jsval"
  have h: "selected_hook ''onInit'' plugin_async_nested = JFun ?f"
    by (simp add: selected_hook_def plugin_get_def plugin_async_nested_def)
  have h': "selected_hook ''onInit'' plugin_async = JFun ?g"
    by (simp add: selected_hook_def plugin_get_def plugin_async_def)
  have r: "resolved ?S ''onInit'' = [plugin_async_nested, plugin_working]"
    by (simp add: eval_defs plugin_async_nested_def plugin_working_def)
  have r': "resolved (run [Use [Direct plugin_async]]) ''onInit'' = [plugin_async]"
    by (simp add: eval_defs plugin_async_def)
  have st: "snd (getPluginsWithHook ?S ''onInit'')
              = run [Use [Direct plugin_async_nested, Direct plugin_working], Resolve ''onInit'']"
       "snd (getPluginsWithHook (run [Use [Direct plugin_async]]) ''onInit'')
              = run [Use [Direct plugin_async], Resolve ''onInit'']"
    by (simp_all add: run_def)
  have w: "sync_yield ''onInit'' () plugin_working = JStr ''working-test''"
          "sync_events ''onInit'' () plugin_working = [Called ''working'' ''onInit'']"
    by (simp_all add: sync_yield_def sync_events_def selected_hook_def plugin_get_def
          plugin_working_def)
  note t = C7_promise_under_sync[of ?S "''onInit''" "()" "[]" plugin_async_nested ?f
      "Fulfilled (JStr ''nested-test'')"]
  note t' = C7_promise_under_sync[of "run [Use [Direct plugin_async]]" "''onInit''" "()" "[]"
      plugin_async ?g "Fulfilled (JStr ''async-test'')"]
  have n: "sync_yield ''onInit'' () plugin_async_nested = Null"
    "sync_events ''onInit'' () plugin_async_nested
       = [Called (name plugin_async_nested) ''onInit'', Warn_promise (name plugin_async_nested) ''onInit'']"
    "async_result ''onInit'' () plugin_async_nested = settled (Fulfilled (JStr ''nested-test''))"
    using t h by simp_all
  have n': "sync_yield ''onInit'' () plugin_async = Null"
    "sync_events ''onInit'' () plugin_async
       = [Called (name plugin_async) ''onInit'', Warn_promise (name plugin_async) ''onInit'']"
    using t' h' by simp_all
  have a: "async_observed ''onInit'' () plugin_async_nested = [Called ''nested'' ''onInit'']"
    by (simp add: async_observed_def h) (simp add: plugin_async_nested_def)
  have e1: "exec ?S ''onInit'' () =
       (Inr (JStr ''working-test''),
        [Called ''nested'' ''onInit'', Warn_promise ''nested'' ''onInit'',
         Called ''working'' ''onInit''],
        run [Use [Direct plugin_async_nested, Direct plugin_working], Resolve ''onInit''])"
    using t unfolding r st
    by (simp add: n w first_present_def) (simp add: plugin_async_nested_def)
  have e2: "execAll ?S ''onInit'' () =
       (Inr [JStr ''working-test''],
        [Called ''nested'' ''onInit'', Warn_promise ''nested'' ''onInit'',
         Called ''working'' ''onInit''],
        run [Use [Direct plugin_async_nested, Direct plugin_working], Resolve ''onInit''])"
    using t unfolding r st
    by (simp add: n w) (simp add: plugin_async_nested_def)
  have e3: "execAsync ?S ''onInit'' () =
       (Fulfilled (JStr ''nested-test''), [Called ''nested'' ''onInit''],
        run [Use [Direct plugin_async_nested, Direct plugin_working], Resolve ''onInit''])"
    using t unfolding r st
    by (simp add: n a nullish_def)
  have e4: "exec (run [Use [Direct plugin_async]]) ''onInit'' () =
       (Inr Null, [Called ''async'' ''onInit'', Warn_promise ''async'' ''onInit''],
        run [Use [Direct plugin_async], Resolve ''onInit''])"
    using t' unfolding r' st
    by (simp add: n' first_present_def) (simp add: plugin_async_def)
  from h e1 e2 e3 e4 show ?thesis by blast
qed



text \<open>
  C9, as stated, fails: after \<^verbatim>\<open>getPluginsWithHook("onInit")\<close> has cached an array, a
  \<^verbatim>\<open>use\<close> whose only plugin is a rejected duplicate, and a \<^verbatim>\<open>use\<close> without plugins, both
  empty the cache; the next \<^verbatim>\<open>getPluginsWithHook("onInit")\<close> returns a new array.
\<close>

theorem C9_counterexample:
  "hookCache (run [Use [Direct plugin_async], Resolve ''onInit'']) ''onInit'' = Some 0
   \<and> fst (snd (use (run [Use [Direct plugin_async], Resolve ''onInit'']) [Direct plugin_async]))
       = [Warn_duplicate ''async'']
   \<and> hookCache (run [Use [Direct plugin_async], Resolve ''onInit'', Use [Direct plugin_async]])
       ''onInit'' = None
   \<and> fst (getPluginsWithHook
            (run [Use [Direct plugin_async], Resolve ''onInit'', Use [Direct plugin_async]])
            ''onInit'') = Inr 1
   \<and> hookCache (run [Use [Direct plugin_async], Resolve ''onInit'', Use []]) ''onInit'' = None"
  by (simp add: eval_defs plugin_async_def)

text \<open>
  C9, amended. \<^verbatim>\<open>use\<close> marks the registry dirty and empties the hook cache whenever it
  completes, whether or not a plugin was accepted (when a factory throws, the registry is
  left as it was). \<^verbatim>\<open>remove\<close> invalidates exactly when a plugin of that name was
  registered; for an absent name it leaves the whole registry as it was, so the next
  \<^verbatim>\<open>getPluginsWithHook\<close> behaves as before. Both return the registry.
\<close>

theorem C9_invalidation:
  "(if list_all (\<lambda>i. \<not> factory_throws i) inputs
    then fst (use s inputs) = Inr ()
       \<and> isDirty (snd (snd (use s inputs)))
       \<and> hookCache (snd (snd (use s inputs))) = Map.empty
    else snd (snd (use s inputs)) = s)
   \<and> remove s n =
       (Inr (), [],
        if n \<in> name ` set (plugins s)
        then s\<lparr>plugins := filter (\<lambda>p. name p \<noteq> n) (plugins s), isDirty := True,
               hookCache := Map.empty\<rparr>
        else s)
   \<and> (if n \<in> name ` set (plugins s) then True
       else getPluginsWithHook (snd (snd (remove s n))) h = getPluginsWithHook s h)"
proof -
  have u: "if list_all (\<lambda>i. \<not> factory_throws i) inputs
    then fst (use s inputs) = Inr ()
       \<and> isDirty (snd (snd (use s inputs)))
       \<and> hookCache (snd (snd (use s inputs))) = Map.empty
    else snd (snd (use s inputs)) = s"
    using flattenPlugins_loop_ok[of inputs "[]"] flattenPlugins_loop_throws[of inputs "[]"]
    by (auto simp: use_def flattenPlugins_def invalidateCache_def split: prod.splits)
  have f: "length (filter (\<lambda>p. name p \<noteq> n) (plugins s)) = length (plugins s)
             \<longleftrightarrow> n \<notin> name ` set (plugins s)"
    by (metis (mono_tags, lifting) filter_True filter_same_length image_iff filter_id_conv)
  have g: "n \<notin> name ` set (plugins s) \<Longrightarrow> filter (\<lambda>p. name p \<noteq> n) (plugins s) = plugins s"
    by (auto simp: filter_id_conv)
  have r: "remove s n =
       (Inr (), [],
        if n \<in> name ` set (plugins s)
        then s\<lparr>plugins := filter (\<lambda>p. name p \<noteq> n) (plugins s), isDirty := True,
               hookCache := Map.empty\<rparr>
        else s)"
    using f g by (auto simp: remove_def Let_def invalidateCache_def)
  show ?thesis using u r by simp
qed

text \<open>
  C10. A plugin that \<^verbatim>\<open>getPluginsWithHook\<close> lists for a hook name, but for which the value
  selected by \<^verbatim>\<open>getHookFunction\<close> (the direct attribute if truthy, else the entry of the
  \<open>hooks\<close> container) is not a function, is skipped by every dispatch strategy of both
  sources: nothing is called, nothing is reported, and the loop continues as if the
  plugin were not there.
\<close>

theorem C10_not_callable_skipped:
  assumes "listed h p" and "typeof (getHookFunction p h) \<noteq> TFunction"
  shows "exec_loop h args (p # rest) = exec_loop h args rest
       \<and> execAll_loop h args results (p # rest) = execAll_loop h args results rest
       \<and> execAsync_loop h args (p # rest) = execAsync_loop h args rest
       \<and> hookPromise h args p = (Fulfilled Null, [], [])
       \<and> lib_executeHookSync p h args = (Inr Null, [])
       \<and> lib_executeHookAsync p h args = (Fulfilled Null, [])
       \<and> lib_exec_loop h args (p # rest) = lib_exec_loop h args rest
       \<and> lib_execAll_loop h args results (p # rest) = lib_execAll_loop h args results rest
       \<and> lib_execAsync_loop h args (p # rest) = lib_execAsync_loop h args rest
       \<and> lib_execAllAsync_loop h args results (p # rest) =
           lib_execAllAsync_loop h args results rest"
  using assms(2)
  by (simp add: hookPromise_def lib_executeHookSync_def lib_executeHookAsync_def with_log_def
        exec_loop.simps execAll_loop.simps execAsync_loop.simps lib_exec_loop.simps
        lib_execAll_loop.simps lib_execAsync_loop.simps lib_execAllAsync_loop.simps)

text \<open>
  A hooks container with a number under the hook name; and a function under the key
  \<^verbatim>\<open>name\<close>, which the truthy direct attribute \<^verbatim>\<open>name\<close> of the plugin shadows.
\<close>

theorem C10_witness:
  "listed ''onInit'' plugin_nested_number
   \<and> typeof (getHookFunction plugin_nested_number ''onInit'') \<noteq> TFunction
   \<and> resolved (run [Use [Direct plugin_nested_number]]) ''onInit'' = [plugin_nested_number]
   \<and> exec_loop ''onInit'' () [plugin_nested_number] = (Inr Null, [])
   \<and> execAll_loop ''onInit'' () [] [plugin_nested_number] = (Inr [], [])
   \<and> execAsync_loop ''onInit'' () [plugin_nested_number] = (Fulfilled Null, [])"
proof -
  have a: "listed ''onInit'' plugin_nested_number"
    by (simp add: listed_def nested_entry_def plugin_nested_number_def)
  have b: "typeof (getHookFunction plugin_nested_number ''onInit'') \<noteq> TFunction"
    by (simp add: getHookFunction_def plugin_get_def plugin_nested_number_def)
  have c: "resolved (run [Use [Direct plugin_nested_number]]) ''onInit'' = [plugin_nested_number]"
    by (simp add: eval_defs plugin_nested_number_def)
  from C10_not_callable_skipped[OF a b, of "()" "[]" "[]"] a b c show ?thesis
    by (simp del: typeof.simps)
qed

lemma shadowed_example:
  "listed ''name'' plugin_shadowed
   \<and> getHookFunction plugin_shadowed ''name'' = JStr ''s''
   \<and> exec_loop ''name'' () [plugin_shadowed] = (Inr Null, [])"
  by (simp add: listed_def nested_entry_def getHookFunction_def plugin_get_def
        plugin_shadowed_def exec_loop.simps)

end
